theory Spec2Isabelle
  imports Main "HOL-Library.Sublist" "HOL-Library.Multiset"
begin

section \<open>The docker-compose scaffolder action (src/runDockerCompose.ts)\<close>

text \<open>
  The source holds two versions of the action \<^verbatim>\<open>custom:docker-compose\<close>. The first
  (lines 1 to 179) removes stale containers, runs \<^verbatim>\<open>docker compose up -d --build\<close>,
  queries the published ports and derives \<^verbatim>\<open>webUrl\<close>; the second (lines 181 to 294)
  stops after the build. Both are asynchronous functions whose only asynchrony is a chain of
  awaited child processes, so the handler is embedded as a function from the answers of its
  collaborators (file system, YAML loader, child processes) to the sequence of effects it
  performs and to the value it returns or the error it rejects with.
\<close>

subsection \<open>Strings\<close>

text \<open>
  A JavaScript string is embedded as \<^typ>\<open>string\<close>; a \<^typ>\<open>char\<close> stands for a code unit
  below 256. \<^verbatim>\<open>\d\<close> without the unicode flags is \<^verbatim>\<open>[0-9]\<close>.
\<close>

definition is_digit :: "char \<Rightarrow> bool" where
  "is_digit c = (c \<in> set ''0123456789'')"

text \<open>
  White space and line terminators that \<^verbatim>\<open>String.prototype.trim\<close> strips, as far as
  they are code units below 256: TAB, LF, VT, FF, CR, SP and NBSP.
\<close>

definition is_space :: "char \<Rightarrow> bool" where
  "is_space c = (c \<in> set [CHR 0x09, CHR 0x0A, CHR 0x0B, CHR 0x0C, CHR 0x0D, CHR 0x20, CHR 0xA0])"

text \<open>\<^verbatim>\<open>line.trim()\<close> used as a condition: true when the trimmed string is not empty.\<close>

definition trim_truthy :: "string \<Rightarrow> bool" where
  "trim_truthy line = (\<not> list_all is_space line)"

text \<open>\<^verbatim>\<open>str.includes(sub)\<close>.\<close>

fun str_includes :: "string \<Rightarrow> string \<Rightarrow> bool" where
  "str_includes [] sub = (sub = [])"
| "str_includes (c # cs) sub = (prefix sub (c # cs) \<or> str_includes cs sub)"

text \<open>\<^verbatim>\<open>output.split('\n')\<close>: the empty string splits into one empty line.\<close>

fun split_nl :: "string \<Rightarrow> string list" where
  "split_nl [] = [[]]"
| "split_nl (c # cs) =
     (if c = CHR 0x0A then [] # split_nl cs
      else (case split_nl cs of [] \<Rightarrow> [[c]] | l # ls \<Rightarrow> (c # l) # ls))"

text \<open>\<^verbatim>\<open>names.join(', ')\<close>.\<close>

fun join :: "string \<Rightarrow> string list \<Rightarrow> string" where
  "join sep [] = []"
| "join sep [x] = x"
| "join sep (x # y # ys) = x @ sep @ join sep (y # ys)"

text \<open>The decimal text of an exit code inside a template literal.\<close>

definition digit_char :: "nat \<Rightarrow> char" where
  "digit_char d = ''0123456789'' ! d"

function show_nat :: "nat \<Rightarrow> string" where
  "show_nat n = (if n < 10 then [digit_char n] else show_nat (n div 10) @ [digit_char (n mod 10)])"
  by pat_completeness auto
termination
  by (relation "measure id") auto

declare show_nat.simps [simp del]

definition show_int :: "int \<Rightarrow> string" where
  "show_int i = (if i < 0 then CHR ''-'' # show_nat (nat (- i)) else show_nat (nat i))"

subsection \<open>Port mappings and the port-line pattern\<close>

record port_mapping =
  containerPort :: string
  hostPort :: string

text \<open>
  \<^verbatim>\<open>line.match(/^(\d+)\/tcp -> [^:]+:(\d+)$/)\<close>: \<open>None\<close> for \<^verbatim>\<open>null\<close>, otherwise the
  two captures. The matcher reads the pattern from left to right, each \<^verbatim>\<open>+\<close> taking
  the longest run; no shorter run can match, since each run is followed by a character
  outside its class (lemmas \<open>match_port_line_sound\<close> and \<open>match_port_line_complete\<close>).
\<close>

definition match_port_line :: "string \<Rightarrow> (string \<times> string) option" where
  "match_port_line line =
     (let c = takeWhile is_digit line;
          r1 = dropWhile is_digit line
      in if c = [] then None
         else if \<not> prefix ''/tcp -> '' r1 then None
         else
           (let r2 = drop (length ''/tcp -> '') r1;
                host = takeWhile (\<lambda>x. x \<noteq> CHR '':'') r2;
                r3 = dropWhile (\<lambda>x. x \<noteq> CHR '':'') r2
            in if host = [] then None
               else (case r3 of
                       [] \<Rightarrow> None
                     | _ # h \<Rightarrow> if h \<noteq> [] \<and> list_all is_digit h then Some (c, h) else None)))"

text \<open>
  The language of the pattern, written out: anchored at both ends, a non-empty digit group,
  the literal \<^verbatim>\<open>/tcp -> \<close>, a non-empty run without a colon, a colon, and a non-empty
  digit group.
\<close>

definition port_line_shape :: "string \<Rightarrow> string \<Rightarrow> string \<Rightarrow> bool" where
  "port_line_shape line c h =
     (\<exists>host. line = c @ ''/tcp -> '' @ host @ '':'' @ h
        \<and> c \<noteq> [] \<and> list_all is_digit c
        \<and> host \<noteq> [] \<and> CHR '':'' \<notin> set host
        \<and> h \<noteq> [] \<and> list_all is_digit h)"

text \<open>The body of the \<^verbatim>\<open>forEach\<close> callback of the close handler (lines 134 to 141).\<close>

definition scan_line :: "port_mapping list \<Rightarrow> string \<Rightarrow> port_mapping list" where
  "scan_line mappings line =
     (if trim_truthy line then
        (case match_port_line line of
           Some (c, h) \<Rightarrow> mappings @ [\<lparr>containerPort = c, hostPort = h\<rparr>]
         | None \<Rightarrow> mappings)
      else mappings)"

definition parse_ports :: "string \<Rightarrow> port_mapping list" where
  "parse_ports output = foldl scan_line [] (split_nl output)"

subsection \<open>Objects and the order of their keys\<close>

text \<open>
  \<^verbatim>\<open>Object.keys\<close> and \<^verbatim>\<open>Object.entries\<close> list the own enumerable string keys of
  an object in the order of \<^verbatim>\<open>OrdinaryOwnPropertyKeys\<close>: first the keys that are array
  indices (the canonical decimal text of an integer below \<open>2\<^sup>3\<^sup>2 - 1\<close>) in ascending
  numeric order, then all other keys in the order in which they were created.
\<close>

definition dec_value :: "string \<Rightarrow> int" where
  "dec_value s = foldl (\<lambda>n c. 10 * n + (of_char c - 48)) 0 s"

definition is_array_index :: "string \<Rightarrow> bool" where
  "is_array_index s =
     (s \<noteq> [] \<and> list_all is_digit s \<and> (s = ''0'' \<or> hd s \<noteq> CHR ''0'')
      \<and> dec_value s < 4294967295)"

definition own_property_order :: "('a \<Rightarrow> string) \<Rightarrow> 'a list \<Rightarrow> 'a list" where
  "own_property_order key xs =
     sort_key (\<lambda>x. dec_value (key x)) (filter (\<lambda>x. is_array_index (key x)) xs)
     @ filter (\<lambda>x. \<not> is_array_index (key x)) xs"

text \<open>
  \<^verbatim>\<open>Object.keys(v)\<close> of a value whose own enumerable string keys were created in the
  order \<open>ks\<close>.
\<close>

definition object_keys :: "string list \<Rightarrow> string list" where
  "object_keys ks = own_property_order (\<lambda>k. k) ks"

text \<open>
  The object \<^verbatim>\<open>ports\<close> (line 119), typed
  \<^verbatim>\<open>Record<string, Array<{ hostPort: string; containerPort: string }>>\<close>: its own
  properties in creation order, and its prototype when an assignment has replaced
  \<^verbatim>\<open>Object.prototype\<close>.
\<close>

record port_table =
  own :: "(string \<times> port_mapping list) list"
  proto :: "port_mapping list option"

definition empty_table :: port_table where
  "empty_table = \<lparr>own = [], proto = None\<rparr>"

fun put :: "string \<Rightarrow> 'v \<Rightarrow> (string \<times> 'v) list \<Rightarrow> (string \<times> 'v) list" where
  "put k v [] = [(k, v)]"
| "put k v (p # ps) = (if fst p = k then (k, v) # ps else p # put k v ps)"

text \<open>
  \<^verbatim>\<open>ports[service] = mappings\<close> (line 142). The value is always an array, so for the
  key \<^verbatim>\<open>__proto__\<close> the inherited setter of \<^verbatim>\<open>Object.prototype\<close> makes the array the
  prototype of \<^verbatim>\<open>ports\<close> and no own property is created; any other key creates an own
  property or overwrites it in place.
\<close>

definition assign :: "port_table \<Rightarrow> string \<Rightarrow> port_mapping list \<Rightarrow> port_table" where
  "assign pt k v =
     (if k = ''__proto__'' then pt\<lparr>proto := Some v\<rparr> else pt\<lparr>own := put k v (own pt)\<rparr>)"

text \<open>\<^verbatim>\<open>Object.entries(ports)\<close>.\<close>

definition object_entries :: "port_table \<Rightarrow> (string \<times> port_mapping list) list" where
  "object_entries pt = own_property_order fst (own pt)"

subsection \<open>The collaborators of the handler and its effects\<close>

datatype level = Info | Warn | Error

datatype message = Text string | ExposedPorts port_table

datatype command =
  RemoveContainers string
| ComposeUp string string
| PortQuery string

datatype out_value = PortsValue port_table | StringValue string

text \<open>
  One effect of the handler: a call of \<^verbatim>\<open>ctx.logger\<close>, entering the \<^verbatim>\<open>try\<close> block that
  imports the YAML library, reads and parses the manifest, a \<^verbatim>\<open>spawn\<close>, or a call of
  \<^verbatim>\<open>ctx.output\<close>. \<open>ExposedPorts pt\<close> stands for the text
  \<^verbatim>\<open>Exposed ports: \<close> followed by \<^verbatim>\<open>JSON.stringify(ports)\<close>.
\<close>

datatype event =
  Log level message
| LoadManifest string
| Spawn command
| Output string out_value

text \<open>The program and arguments that each \<^verbatim>\<open>spawn\<close> passes (lines 74, 91 and 123).\<close>

fun argv :: "command \<Rightarrow> string \<times> string list" where
  "argv (RemoveContainers service) =
     (''/usr/bin/bash'',
      [''-c'', ''docker ps -a --filter '' @ [CHR 0x22] @ ''name='' @ service @ [CHR 0x22]
               @ '' --format '' @ [CHR 0x22] @ ''{{.Names}}'' @ [CHR 0x22]
               @ '' | xargs -r docker rm -f''])"
| "argv (ComposeUp composePath cwd) =
     (''/usr/bin/docker'', [''compose'', ''-f'', composePath, ''up'', ''-d'', ''--build''])"
| "argv (PortQuery service) =
     (''/usr/bin/bash'',
      [''-c'', ''docker ps --filter '' @ [CHR 0x22] @ ''name='' @ service @ [CHR 0x22]
               @ '' --format '' @ [CHR 0x22] @ ''{{.Names}}'' @ [CHR 0x22]
               @ '' | xargs -r -I {} docker port {}''])"

datatype stream = Stdout | Stderr

text \<open>
  What a child process does until it closes: its \<^verbatim>\<open>data\<close> events in order of arrival,
  and the \<^verbatim>\<open>code\<close> of its \<^verbatim>\<open>close\<close> event (\<open>None\<close> is \<^verbatim>\<open>null\<close>, a process
  ended by a signal). A child that never closes is not represented: the handler would wait
  for it forever.
\<close>

record child_run =
  chunks :: "(stream \<times> string) list"
  exit_code :: "int option"

text \<open>
  \<^verbatim>\<open>doc.services\<close> of a loaded document: a falsy value (also \<^verbatim>\<open>undefined\<close>, when the
  document has no such property), or a truthy value with its own enumerable string keys in
  the order in which the loader created them, which is the order of the manifest's text.
  The keys of an object are distinct.
\<close>

datatype services_value = Falsy | Truthy "string list"

text \<open>
  What \<^verbatim>\<open>yaml.load\<close> returns: \<^verbatim>\<open>undefined\<close> (an empty file) or \<^verbatim>\<open>null\<close>, on which
  reading \<^verbatim>\<open>doc.services\<close> throws a TypeError, or any other value, with what
  \<^verbatim>\<open>doc.services\<close> gives.
\<close>

datatype yaml_doc = Undefined | Null | Document services_value

text \<open>
  The outcome of the three statements of the \<^verbatim>\<open>try\<close> block before \<^verbatim>\<open>doc.services\<close>
  is read: one of them throws (the text is \<^verbatim>\<open>String(err)\<close>), or \<^verbatim>\<open>yaml.load\<close> returns.
\<close>

datatype load_outcome = Threw string | Loaded yaml_doc

record world =
  workDir :: "string option"
  workspacePath :: string
  composeFile :: string
  path_join :: "string \<Rightarrow> string \<Rightarrow> string"
  existsSync :: "string \<Rightarrow> bool"
  load_yaml :: "string \<Rightarrow> load_outcome"
  rm_run :: "string \<Rightarrow> child_run"
  up_run :: child_run
  port_run :: "string \<Rightarrow> child_run"

datatype js_error = JsError string

record result =
  webUrl :: string
  ports :: port_table

subsection \<open>Step 1: the services of the manifest (lines 58 to 69)\<close>

text \<open>The text of the TypeError that V8 raises for \<^verbatim>\<open>doc.services\<close> on a nullish \<^verbatim>\<open>doc\<close>.\<close>

definition nullish_read :: "string \<Rightarrow> string" where
  "nullish_read what =
     ''TypeError: Cannot read properties of '' @ what @ '' (reading '' @ [CHR 0x27]
     @ ''services'' @ [CHR 0x27] @ '')''"

definition extract_services :: "world \<Rightarrow> string \<Rightarrow> event list \<times> string list" where
  "extract_services w composePath =
     (case load_yaml w composePath of
        Threw err \<Rightarrow>
          ([LoadManifest composePath,
            Log Warn (Text (''Failed to parse compose file: '' @ err))], [])
      | Loaded Undefined \<Rightarrow>
          ([LoadManifest composePath,
            Log Warn (Text (''Failed to parse compose file: '' @ nullish_read ''undefined''))], [])
      | Loaded Null \<Rightarrow>
          ([LoadManifest composePath,
            Log Warn (Text (''Failed to parse compose file: '' @ nullish_read ''null''))], [])
      | Loaded (Document Falsy) \<Rightarrow> ([LoadManifest composePath], [])
      | Loaded (Document (Truthy ks)) \<Rightarrow>
          (let serviceNames = object_keys ks
           in ([LoadManifest composePath,
                Log Info (Text (''Detected services: '' @ join '', '' serviceNames))],
               serviceNames)))"

subsection \<open>Step 2: removing existing containers (lines 72 to 86)\<close>

fun rm_data :: "stream \<times> string \<Rightarrow> event" where
  "rm_data (Stdout, d) = Log Info (Text (''DOCKER OUT: '' @ d))"
| "rm_data (Stderr, d) = Log Warn (Text (''DOCKER WARN: '' @ d))"

definition remove_one :: "world \<Rightarrow> string \<Rightarrow> event list" where
  "remove_one w service =
     Spawn (RemoveContainers service)
     # map rm_data (chunks (rm_run w service))
     @ [Log Info (Text (''Removed any existing containers matching: '' @ service))]"

fun remove_all :: "world \<Rightarrow> string list \<Rightarrow> event list" where
  "remove_all w [] = []"
| "remove_all w (service # rest) = remove_one w service @ remove_all w rest"

subsection \<open>Step 3: docker compose up (lines 90 to 116, and 252 to 278)\<close>

definition routine :: "string \<Rightarrow> bool" where
  "routine str =
     (str_includes str ''Creating'' \<or> str_includes str ''Created''
      \<or> str_includes str ''level=warning'')"

text \<open>The \<^verbatim>\<open>data\<close> listeners of the first version (lines 97 to 105).\<close>

fun up_data :: "stream \<times> string \<Rightarrow> event" where
  "up_data (Stdout, d) = Log Info (Text (''DOCKER OUT: '' @ d))"
| "up_data (Stderr, str) =
     (if routine str then Log Warn (Text (''DOCKER WARN: '' @ str))
      else Log Warn (Text (''DOCKER ERR: '' @ str)))"

text \<open>The \<^verbatim>\<open>data\<close> listeners of the second version (lines 259 to 267).\<close>

fun up_data2 :: "stream \<times> string \<Rightarrow> event" where
  "up_data2 (Stdout, d) = Log Info (Text (''DOCKER OUT: '' @ d))"
| "up_data2 (Stderr, str) =
     (if routine str then Log Warn (Text (''DOCKER WARN: '' @ str))
      else Log Error (Text (''DOCKER ERR: '' @ str)))"

text \<open>\<^verbatim>\<open>${code}\<close> for the \<^verbatim>\<open>code\<close> of a \<^verbatim>\<open>close\<close> event.\<close>

fun show_code :: "int option \<Rightarrow> string" where
  "show_code None = ''null''"
| "show_code (Some n) = show_int n"

text \<open>The \<^verbatim>\<open>close\<close> listener (lines 107 to 115): the events, and the rejection if any.\<close>

definition up_close :: "int option \<Rightarrow> event list \<times> js_error option" where
  "up_close code =
     (if code = Some 0 then ([Log Info (Text ''Docker Compose executed successfully.'')], None)
      else ([Log Error (Text (''docker compose up exited with code '' @ show_code code))],
            Some (JsError (''docker compose up exited with code '' @ show_code code))))"

definition compose_up ::
  "(stream \<times> string \<Rightarrow> event) \<Rightarrow> world \<Rightarrow> string \<Rightarrow> string \<Rightarrow> event list \<times> js_error option" where
  "compose_up on_data w composePath cwd =
     (let (closing, rejection) = up_close (exit_code (up_run w))
      in (Spawn (ComposeUp composePath cwd) # map on_data (chunks (up_run w)) @ closing,
          rejection))"

subsection \<open>Step 4: the exposed ports (lines 119 to 146)\<close>

text \<open>
  One round of the loop: \<^verbatim>\<open>output\<close> collects the stdout chunks, each stderr chunk is
  logged, and at \<^verbatim>\<open>close\<close> the parsed mappings are stored under the service.
\<close>

text \<open>\<^verbatim>\<open>output\<close> when the child closes, and the \<^verbatim>\<open>mappings\<close> parsed from it.\<close>

definition port_output :: "world \<Rightarrow> string \<Rightarrow> string" where
  "port_output w service =
     concat (map snd (filter (\<lambda>d. fst d = Stdout) (chunks (port_run w service))))"

definition discovered :: "world \<Rightarrow> string \<Rightarrow> port_mapping list" where
  "discovered w service = parse_ports (port_output w service)"

definition inspect_one :: "world \<Rightarrow> string \<Rightarrow> port_table \<Rightarrow> event list \<times> port_table" where
  "inspect_one w service pt =
     (let warnings = map (\<lambda>d. Log Warn (Text (''DOCKER WARN: '' @ snd d)))
                         (filter (\<lambda>d. fst d = Stderr) (chunks (port_run w service)))
      in (Spawn (PortQuery service) # warnings, assign pt service (discovered w service)))"

fun inspect_all :: "world \<Rightarrow> string list \<Rightarrow> port_table \<Rightarrow> event list \<times> port_table" where
  "inspect_all w [] pt = ([], pt)"
| "inspect_all w (service # rest) pt =
     (let (es, pt') = inspect_one w service pt;
          (es', pt'') = inspect_all w rest pt'
      in (es @ es', pt''))"

subsection \<open>Step 5: the first web URL (lines 151 to 157)\<close>

fun first_url :: "(string \<times> port_mapping list) list \<Rightarrow> string" where
  "first_url [] = ''''"
| "first_url ((service, mappings) # rest) =
     (case mappings of
        m # _ \<Rightarrow> ''http://localhost:'' @ hostPort m
      | [] \<Rightarrow> first_url rest)"

definition select_web_url :: "port_table \<Rightarrow> string" where
  "select_web_url pt = first_url (object_entries pt)"

subsection \<open>The handler of the first version (lines 47 to 164)\<close>

definition cwd_of :: "world \<Rightarrow> string" where
  "cwd_of w = (case workDir w of Some d \<Rightarrow> d | None \<Rightarrow> workspacePath w)"

definition composePath_of :: "world \<Rightarrow> string" where
  "composePath_of w = path_join w (cwd_of w) (composeFile w)"

definition handler :: "world \<Rightarrow> event list \<times> (js_error + result)" where
  "handler w =
     (let cwd = cwd_of w;
          composePath = composePath_of w;
          e0 = [Log Info (Text (''Compose file: '' @ composePath))]
      in if \<not> existsSync w composePath
         then (e0, Inl (JsError (''Compose file not found: '' @ composePath)))
         else
           (let (e1, serviceNames) = extract_services w composePath;
                e2 = remove_all w serviceNames;
                e3 = [Log Info (Text ''Starting Docker Compose...'')];
                (e4, rejection) = compose_up up_data w composePath cwd
            in case rejection of
                 Some err \<Rightarrow> (e0 @ e1 @ e2 @ e3 @ e4, Inl err)
               | None \<Rightarrow>
                   (let (e5, table) = inspect_all w serviceNames empty_table;
                        e6 = [Log Info (ExposedPorts table)];
                        url = select_web_url table;
                        e7 = [Output ''ports'' (PortsValue table),
                              Log Info (Text (''Web URL detected: '' @ url)),
                              Output ''webUrl'' (StringValue url)]
                    in (e0 @ e1 @ e2 @ e3 @ e4 @ e5 @ e6 @ e7,
                        Inr \<lparr>webUrl = url, ports = table\<rparr>))))"

subsection \<open>The handler of the second version (lines 204 to 279)\<close>

definition extract_services2 :: "world \<Rightarrow> string \<Rightarrow> event list \<times> string list" where
  "extract_services2 w composePath =
     (case load_yaml w composePath of
        Threw err \<Rightarrow>
          ([LoadManifest composePath,
            Log Warn (Text (''Failed to parse compose file for service names: '' @ err))], [])
      | Loaded Undefined \<Rightarrow>
          ([LoadManifest composePath,
            Log Warn (Text (''Failed to parse compose file for service names: ''
                            @ nullish_read ''undefined''))], [])
      | Loaded Null \<Rightarrow>
          ([LoadManifest composePath,
            Log Warn (Text (''Failed to parse compose file for service names: ''
                            @ nullish_read ''null''))], [])
      | Loaded (Document Falsy) \<Rightarrow> ([LoadManifest composePath], [])
      | Loaded (Document (Truthy ks)) \<Rightarrow>
          (let serviceNames = object_keys ks
           in ([LoadManifest composePath,
                Log Info (Text (''Detected services in compose file: ''
                                @ join '', '' serviceNames))],
               serviceNames)))"

definition handler2 :: "world \<Rightarrow> event list \<times> (js_error + unit)" where
  "handler2 w =
     (let cwd = cwd_of w;
          composePath = composePath_of w;
          e0 = [Log Info (Text (''composeFile from user: '' @ composeFile w)),
                Log Info (Text (''Workspace path: '' @ cwd)),
                Log Info (Text (''Resolved composePath: '' @ composePath))]
      in if \<not> existsSync w composePath
         then (e0 @ [Log Error (Text (''Compose file NOT FOUND at: '' @ composePath))],
               Inl (JsError (''Compose file not found: '' @ composePath)))
         else
           (let (e1, serviceNames) = extract_services2 w composePath;
                e2 = remove_all w serviceNames;
                e3 = [Log Info (Text ''Starting Docker Compose with rebuild...'')];
                (e4, rejection) = compose_up up_data2 w composePath cwd
            in case rejection of
                 Some err \<Rightarrow> (e0 @ e1 @ e2 @ e3 @ e4, Inl err)
               | None \<Rightarrow> (e0 @ e1 @ e2 @ e3 @ e4, Inr ())))"

subsection \<open>Observations on a run\<close>

text \<open>The service names that Step 1 hands to the later steps.\<close>

definition serviceNames_of :: "world \<Rightarrow> string list" where
  "serviceNames_of w = snd (extract_services w (composePath_of w))"

text \<open>
  The service names in the order in which the manifest declares them: the keys of
  \<^verbatim>\<open>doc.services\<close> in creation order, and none when the manifest gives no such keys.
\<close>

definition declared :: "world \<Rightarrow> string list" where
  "declared w =
     (case load_yaml w (composePath_of w) of
        Loaded (Document (Truthy ks)) \<Rightarrow> ks
      | _ \<Rightarrow> [])"

fun removal_of :: "event \<Rightarrow> string option" where
  "removal_of (Spawn (RemoveContainers service)) = Some service"
| "removal_of _ = None"

definition removals :: "event list \<Rightarrow> string list" where
  "removals es = List.map_filter removal_of es"

fun query_of :: "event \<Rightarrow> string option" where
  "query_of (Spawn (PortQuery service)) = Some service"
| "query_of _ = None"

definition queries :: "event list \<Rightarrow> string list" where
  "queries es = List.map_filter query_of es"

fun output_of :: "event \<Rightarrow> (string \<times> out_value) option" where
  "output_of (Output name v) = Some (name, v)"
| "output_of _ = None"

definition outputs :: "event list \<Rightarrow> (string \<times> out_value) list" where
  "outputs es = List.map_filter output_of es"

fun severity :: "event \<Rightarrow> level option" where
  "severity (Log l m) = Some l"
| "severity _ = None"

definition logged_at :: "level \<Rightarrow> event list \<Rightarrow> event list" where
  "logged_at l es = filter (\<lambda>e. severity e = Some l) es"

text \<open>
  The selection of the web URL in the words of the specification: the services are scanned
  in a given order, the first one whose mapping sequence is not empty gives the URL from its
  first mapping, and the URL is empty when there is none.
\<close>

fun scan_first_url :: "world \<Rightarrow> string list \<Rightarrow> string" where
  "scan_first_url w [] = ''''"
| "scan_first_url w (service # rest) =
     (if discovered w service \<noteq> []
      then ''http://localhost:'' @ hostPort (hd (discovered w service))
      else scan_first_url w rest)"

text \<open>The effects of a run that found its manifest, up to the close of the build.\<close>

definition before_up :: "world \<Rightarrow> event list" where
  "before_up w =
     Log Info (Text (''Compose file: '' @ composePath_of w))
     # fst (extract_services w (composePath_of w))
     @ remove_all w (serviceNames_of w)
     @ [Log Info (Text ''Starting Docker Compose...''),
        Spawn (ComposeUp (composePath_of w) (cwd_of w))]
     @ map up_data (chunks (up_run w))"

subsection \<open>Sample runs\<close>

text \<open>A run whose manifest is not on disk.\<close>

definition absent_world :: world where
  "absent_world = \<lparr>workDir = Some ''/srv/app'', workspacePath = ''/tmp/ws'',
     composeFile = ''docker-compose.yml'',
     path_join = (\<lambda>a b. a @ ''/'' @ b), existsSync = (\<lambda>p. False),
     load_yaml = (\<lambda>p. Loaded (Document (Truthy [''web'', ''db'']))),
     rm_run = (\<lambda>s. \<lparr>chunks = [], exit_code = Some 0\<rparr>),
     up_run = \<lparr>chunks = [], exit_code = Some 0\<rparr>,
     port_run = (\<lambda>s. \<lparr>chunks = [], exit_code = Some 0\<rparr>)\<rparr>"

text \<open>A run whose build closes with code 17.\<close>

definition failing_world :: world where
  "failing_world = \<lparr>workDir = None, workspacePath = ''/tmp/ws'',
     composeFile = ''docker-compose.yml'',
     path_join = (\<lambda>a b. a @ ''/'' @ b), existsSync = (\<lambda>p. True),
     load_yaml = (\<lambda>p. Loaded (Document (Truthy [''web'', ''db'']))),
     rm_run = (\<lambda>s. \<lparr>chunks = [], exit_code = Some 0\<rparr>),
     up_run = \<lparr>chunks = [(Stderr, ''failed to solve: process did not complete'')],
               exit_code = Some 17\<rparr>,
     port_run = (\<lambda>s. \<lparr>chunks = [(Stdout, ''80/tcp -> 0.0.0.0:32768'')], exit_code = Some 0\<rparr>)\<rparr>"


text \<open>
  The scenario of the specification: services \<^verbatim>\<open>web\<close> and \<^verbatim>\<open>db\<close>, \<^verbatim>\<open>web\<close>
  publishes container port 80 on host port 32768 and \<^verbatim>\<open>db\<close> publishes nothing; the
  removal of \<^verbatim>\<open>web\<close> closes with code 1.
\<close>

definition sample_world :: world where
  "sample_world = \<lparr>workDir = None, workspacePath = ''/tmp/ws'',
     composeFile = ''docker-compose.yml'',
     path_join = (\<lambda>a b. a @ ''/'' @ b), existsSync = (\<lambda>p. True),
     load_yaml = (\<lambda>p. Loaded (Document (Truthy [''web'', ''db'']))),
     rm_run = (\<lambda>s. if s = ''web''
                    then \<lparr>chunks = [(Stderr, ''Error: No such container: web'')], exit_code = Some 1\<rparr>
                    else \<lparr>chunks = [], exit_code = Some 0\<rparr>),
     up_run = \<lparr>chunks = [(Stderr, '' Container web  Created'')], exit_code = Some 0\<rparr>,
     port_run = (\<lambda>s. if s = ''web''
                      then \<lparr>chunks = [(Stdout, ''80/tcp -> 0.0.0.0:32768'' @ [CHR 0x0A])],
                            exit_code = Some 0\<rparr>
                      else \<lparr>chunks = [], exit_code = Some 0\<rparr>)\<rparr>"

text \<open>
  A manifest that declares \<^verbatim>\<open>web\<close> and then a service named \<^verbatim>\<open>1\<close>; both publish
  a port.
\<close>

definition index_world :: world where
  "index_world = \<lparr>workDir = None, workspacePath = ''/tmp/ws'',
     composeFile = ''docker-compose.yml'',
     path_join = (\<lambda>a b. a @ ''/'' @ b), existsSync = (\<lambda>p. True),
     load_yaml = (\<lambda>p. Loaded (Document (Truthy [''web'', ''1'']))),
     rm_run = (\<lambda>s. \<lparr>chunks = [], exit_code = Some 0\<rparr>),
     up_run = \<lparr>chunks = [], exit_code = Some 0\<rparr>,
     port_run = (\<lambda>s. if s = ''web''
                      then \<lparr>chunks = [(Stdout, ''80/tcp -> 0.0.0.0:32768'' @ [CHR 0x0A])],
                            exit_code = Some 0\<rparr>
                      else \<lparr>chunks = [(Stdout, ''90/tcp -> 0.0.0.0:32769'' @ [CHR 0x0A])],
                            exit_code = Some 0\<rparr>)\<rparr>"

text \<open>A manifest that declares \<^verbatim>\<open>web\<close> and a service named \<^verbatim>\<open>__proto__\<close>.\<close>

definition proto_world :: world where
  "proto_world = \<lparr>workDir = None, workspacePath = ''/tmp/ws'',
     composeFile = ''docker-compose.yml'',
     path_join = (\<lambda>a b. a @ ''/'' @ b), existsSync = (\<lambda>p. True),
     load_yaml = (\<lambda>p. Loaded (Document (Truthy [''web'', ''__proto__'']))),
     rm_run = (\<lambda>s. \<lparr>chunks = [], exit_code = Some 0\<rparr>),
     up_run = \<lparr>chunks = [], exit_code = Some 0\<rparr>,
     port_run = (\<lambda>s. if s = ''web''
                      then \<lparr>chunks = [(Stdout, ''80/tcp -> 0.0.0.0:32768'' @ [CHR 0x0A])],
                            exit_code = Some 0\<rparr>
                      else \<lparr>chunks = [(Stdout, ''90/tcp -> 0.0.0.0:32769'' @ [CHR 0x0A])],
                            exit_code = Some 0\<rparr>)\<rparr>"

text \<open>A manifest that parses to a mapping without a \<^verbatim>\<open>services\<close> key.\<close>

definition bare_world :: world where
  "bare_world = \<lparr>workDir = None, workspacePath = ''/tmp/ws'',
     composeFile = ''docker-compose.yml'',
     path_join = (\<lambda>a b. a @ ''/'' @ b), existsSync = (\<lambda>p. True),
     load_yaml = (\<lambda>p. Loaded (Document Falsy)),
     rm_run = (\<lambda>s. \<lparr>chunks = [], exit_code = Some 0\<rparr>),
     up_run = \<lparr>chunks = [], exit_code = Some 0\<rparr>,
     port_run = (\<lambda>s. \<lparr>chunks = [], exit_code = Some 0\<rparr>)\<rparr>"

text \<open>A manifest that the YAML loader rejects.\<close>

definition malformed_world :: world where
  "malformed_world = \<lparr>workDir = None, workspacePath = ''/tmp/ws'',
     composeFile = ''docker-compose.yml'',
     path_join = (\<lambda>a b. a @ ''/'' @ b), existsSync = (\<lambda>p. True),
     load_yaml = (\<lambda>p. Threw ''YAMLException: bad indentation of a mapping entry''),
     rm_run = (\<lambda>s. \<lparr>chunks = [], exit_code = Some 0\<rparr>),
     up_run = \<lparr>chunks = [], exit_code = Some 0\<rparr>,
     port_run = (\<lambda>s. \<lparr>chunks = [], exit_code = Some 0\<rparr>)\<rparr>"

text \<open>
  A run whose port query for \<^verbatim>\<open>web\<close> reports three bindings; the text arrives in two
  stdout chunks that break inside the second line, with a stderr chunk between them.
\<close>

definition multi_world :: world where
  "multi_world = \<lparr>workDir = None, workspacePath = ''/tmp/ws'',
     composeFile = ''docker-compose.yml'',
     path_join = (\<lambda>a b. a @ ''/'' @ b), existsSync = (\<lambda>p. True),
     load_yaml = (\<lambda>p. Loaded (Document (Truthy [''web'']))),
     rm_run = (\<lambda>s. \<lparr>chunks = [], exit_code = Some 0\<rparr>),
     up_run = \<lparr>chunks = [], exit_code = Some 0\<rparr>,
     port_run = (\<lambda>s. \<lparr>chunks =
         [(Stdout, ''80/tcp -> 0.0.0.0:32768'' @ [CHR 0x0A] @ ''443/u''),
          (Stderr, ''WARNING: daemon is busy''),
          (Stdout, ''dp -> 0.0.0.0:1'' @ [CHR 0x0A] @ ''8080/tcp -> 127.0.0.1:9000'' @ [CHR 0x0A])],
       exit_code = Some 0\<rparr>)\<rparr>"

section \<open>Properties\<close>

subsection \<open>The port-line pattern\<close>

lemma not_digit_slash: "\<not> is_digit CHR ''/''"
  by (simp add: is_digit_def)

lemma match_port_line_complete:
  assumes "port_line_shape line c h"
  shows "match_port_line line = Some (c, h)"
proof -
  from assms obtain host where
    line: "line = c @ ''/tcp -> '' @ host @ '':'' @ h"
    and c: "c \<noteq> []" "list_all is_digit c"
    and host: "host \<noteq> []" "CHR '':'' \<notin> set host"
    and h: "h \<noteq> []" "list_all is_digit h"
    unfolding port_line_shape_def by blast
  have cd: "\<And>x. x \<in> set c \<Longrightarrow> is_digit x"
    using c(2) by (simp add: list_all_iff)
  have tw: "takeWhile is_digit line = c"
    unfolding line using cd by (simp add: takeWhile_append2 not_digit_slash)
  have dw: "dropWhile is_digit line = ''/tcp -> '' @ host @ '':'' @ h"
    unfolding line using cd by (simp add: dropWhile_append2 not_digit_slash)
  have hc: "\<And>x. x \<in> set host \<Longrightarrow> x \<noteq> CHR '':''"
    using host(2) by blast
  have tw2: "takeWhile (\<lambda>x. x \<noteq> CHR '':'') (host @ '':'' @ h) = host"
    using hc by (simp add: takeWhile_append2)
  have dw2: "dropWhile (\<lambda>x. x \<noteq> CHR '':'') (host @ '':'' @ h) = '':'' @ h"
    using hc by (simp add: dropWhile_append2)
  show ?thesis
    unfolding match_port_line_def tw dw
    using c(1) host(1) h tw2 dw2 by (simp add: Let_def)
qed

lemma match_port_line_sound:
  assumes "match_port_line line = Some (c, h)"
  shows "port_line_shape line c h"
proof -
  define r1 where "r1 = dropWhile is_digit line"
  define r2 where "r2 = drop (length ''/tcp -> '') r1"
  define host where "host = takeWhile (\<lambda>x. x \<noteq> CHR '':'') r2"
  define r3 where "r3 = dropWhile (\<lambda>x. x \<noteq> CHR '':'') r2"
  from assms have c: "c = takeWhile is_digit line" and cne: "c \<noteq> []"
    and pre: "prefix ''/tcp -> '' r1" and hne: "host \<noteq> []"
    and r3: "r3 = CHR '':'' # h \<or> (\<exists>x. r3 = x # h)" and h: "h \<noteq> []" "list_all is_digit h"
    unfolding match_port_line_def r1_def r2_def host_def r3_def
    by (auto simp: Let_def split: if_splits list.splits)
  have l1: "line = c @ r1"
    unfolding c r1_def by simp
  from pre have l2: "r1 = ''/tcp -> '' @ r2"
    unfolding r2_def prefix_def by auto
  have l3: "r2 = host @ r3"
    unfolding host_def r3_def by simp
  from r3 obtain x where r3x: "r3 = x # h" by blast
  have "r3 \<noteq> []" using r3x by simp
  then have "\<not> (hd r3 \<noteq> CHR '':'')"
    unfolding r3_def using hd_dropWhile[of "\<lambda>x. x \<noteq> CHR '':''" r2] by blast
  then have x: "x = CHR '':''" using r3x by simp
  have cd: "list_all is_digit c"
    unfolding c list_all_iff using set_takeWhileD by fastforce
  have hc: "CHR '':'' \<notin> set host"
    unfolding host_def using set_takeWhileD by fastforce
  have "line = c @ ''/tcp -> '' @ host @ '':'' @ h"
    using l1 l2 l3 r3x x by simp
  then show ?thesis
    unfolding port_line_shape_def using cne cd hne hc h by blast
qed

lemma shape_trim: "port_line_shape line c h \<Longrightarrow> trim_truthy line"
  unfolding port_line_shape_def trim_truthy_def
  by (cases c) (auto simp: is_digit_def is_space_def)

lemma foldl_scan_line: "foldl scan_line acc ls = acc @ concat (map (scan_line []) ls)"
proof (induction ls arbitrary: acc)
  case Nil
  then show ?case by simp
next
  case (Cons l ls)
  have "scan_line acc l = acc @ scan_line [] l"
    by (simp add: scan_line_def split: option.splits)
  then show ?case using Cons.IH[of "scan_line acc l"] Cons.IH[of "scan_line [] l"] by simp
qed

subsection \<open>The two outcomes of a run\<close>

lemma handler_missing:
  "\<not> existsSync w (composePath_of w) \<Longrightarrow>
   handler w = ([Log Info (Text (''Compose file: '' @ composePath_of w))],
                Inl (JsError (''Compose file not found: '' @ composePath_of w)))"
  by (simp add: handler_def Let_def)

lemma handler_rejected:
  assumes "existsSync w (composePath_of w)" and "exit_code (up_run w) \<noteq> Some 0"
  shows "handler w =
    (before_up w
       @ [Log Error (Text (''docker compose up exited with code '' @ show_code (exit_code (up_run w))))],
     Inl (JsError (''docker compose up exited with code '' @ show_code (exit_code (up_run w)))))"
  using assms
  by (simp add: handler_def Let_def compose_up_def up_close_def before_up_def serviceNames_of_def
      split: prod.splits)

lemma handler_completed:
  assumes "existsSync w (composePath_of w)" and "exit_code (up_run w) = Some 0"
  shows "handler w =
    (before_up w
       @ [Log Info (Text ''Docker Compose executed successfully.'')]
       @ fst (inspect_all w (serviceNames_of w) empty_table)
       @ [Log Info (ExposedPorts (snd (inspect_all w (serviceNames_of w) empty_table))),
          Output ''ports'' (PortsValue (snd (inspect_all w (serviceNames_of w) empty_table))),
          Log Info (Text (''Web URL detected: ''
             @ select_web_url (snd (inspect_all w (serviceNames_of w) empty_table)))),
          Output ''webUrl''
            (StringValue (select_web_url (snd (inspect_all w (serviceNames_of w) empty_table))))],
     Inr \<lparr>webUrl = select_web_url (snd (inspect_all w (serviceNames_of w) empty_table)),
          ports = snd (inspect_all w (serviceNames_of w) empty_table)\<rparr>)"
  using assms
  by (simp add: handler_def Let_def compose_up_def up_close_def before_up_def serviceNames_of_def
      split: prod.splits)

subsection \<open>Observations distribute over the pieces of a run\<close>

lemma map_filter_append: "List.map_filter f (xs @ ys) = List.map_filter f xs @ List.map_filter f ys"
  by (simp add: List.map_filter_def)

lemma map_filter_none: "(\<And>e. e \<in> set es \<Longrightarrow> f e = None) \<Longrightarrow> List.map_filter f es = []"
  by (induction es) (simp_all add: List.map_filter_simps)

lemma removals_append [simp]: "removals (xs @ ys) = removals xs @ removals ys"
  by (simp add: removals_def map_filter_append)

lemma queries_append [simp]: "queries (xs @ ys) = queries xs @ queries ys"
  by (simp add: queries_def map_filter_append)

lemma outputs_append [simp]: "outputs (xs @ ys) = outputs xs @ outputs ys"
  by (simp add: outputs_def map_filter_append)

lemma removals_Cons [simp]:
  "removals (e # es) = (case removal_of e of None \<Rightarrow> removals es | Some s \<Rightarrow> s # removals es)"
  by (cases "removal_of e") (simp_all add: removals_def List.map_filter_simps)

lemma queries_Cons [simp]:
  "queries (e # es) = (case query_of e of None \<Rightarrow> queries es | Some s \<Rightarrow> s # queries es)"
  by (cases "query_of e") (simp_all add: queries_def List.map_filter_simps)

lemma outputs_Cons [simp]:
  "outputs (e # es) = (case output_of e of None \<Rightarrow> outputs es | Some s \<Rightarrow> s # outputs es)"
  by (cases "output_of e") (simp_all add: outputs_def List.map_filter_simps)

lemma removals_Nil [simp]: "removals [] = []"
  by (simp add: removals_def List.map_filter_simps)

lemma queries_Nil [simp]: "queries [] = []"
  by (simp add: queries_def List.map_filter_simps)

lemma outputs_Nil [simp]: "outputs [] = []"
  by (simp add: outputs_def List.map_filter_simps)

lemma logs_observed:
  assumes "\<forall>e\<in>set es. \<exists>l m. e = Log l m"
  shows "removals es = [] \<and> queries es = [] \<and> outputs es = []"
proof -
  have "\<And>e. e \<in> set es \<Longrightarrow> removal_of e = None \<and> query_of e = None \<and> output_of e = None"
    using assms by fastforce
  then show ?thesis
    by (simp add: removals_def queries_def outputs_def map_filter_none)
qed

lemma rm_data_log: "\<exists>l m. rm_data d = Log l m"
  by (cases d rule: rm_data.cases) simp_all

lemma up_data_log: "\<exists>l m. up_data d = Log l m"
  by (cases d rule: up_data.cases) simp_all

lemma map_rm_data_observed [simp]:
  "removals (map rm_data ds) = []" "queries (map rm_data ds) = []" "outputs (map rm_data ds) = []"
  using logs_observed[of "map rm_data ds"] by (simp_all add: rm_data_log)

lemma map_up_data_observed [simp]:
  "removals (map up_data ds) = []" "queries (map up_data ds) = []" "outputs (map up_data ds) = []"
  using logs_observed[of "map up_data ds"] by (simp_all add: up_data_log)

lemma remove_one_observed [simp]:
  "removals (remove_one w s) = [s]" "queries (remove_one w s) = []" "outputs (remove_one w s) = []"
  by (simp_all add: remove_one_def)

lemma remove_all_observed [simp]:
  "removals (remove_all w names) = names" "queries (remove_all w names) = []"
  "outputs (remove_all w names) = []"
  by (induction names) simp_all

lemma extract_services_observed [simp]:
  "removals (fst (extract_services w p)) = []" "queries (fst (extract_services w p)) = []"
  "outputs (fst (extract_services w p)) = []"
  by (simp_all add: extract_services_def Let_def
      split: load_outcome.splits yaml_doc.splits services_value.splits)

lemma before_up_observed [simp]:
  "removals (before_up w) = serviceNames_of w" "queries (before_up w) = []"
  "outputs (before_up w) = []"
  by (simp_all add: before_up_def)

lemma inspect_one_observed [simp]:
  "removals (fst (inspect_one w s pt)) = []" "queries (fst (inspect_one w s pt)) = [s]"
  "outputs (fst (inspect_one w s pt)) = []"
proof -
  let ?ws = "map (\<lambda>d. Log Warn (Text (''DOCKER WARN: '' @ snd d)))
                 (filter (\<lambda>d. fst d = Stderr) (chunks (port_run w s)))"
  have "removals ?ws = []" "queries ?ws = []" "outputs ?ws = []"
    using logs_observed[of ?ws] by simp_all
  then show "removals (fst (inspect_one w s pt)) = []" "queries (fst (inspect_one w s pt)) = [s]"
    "outputs (fst (inspect_one w s pt)) = []"
    by (simp_all add: inspect_one_def Let_def)
qed

lemma inspect_all_observed [simp]:
  "removals (fst (inspect_all w names pt)) = []" "queries (fst (inspect_all w names pt)) = names"
  "outputs (fst (inspect_all w names pt)) = []"
proof (induction names arbitrary: pt)
  case Nil
  { case 1 show ?case by simp }
  { case 2 show ?case by simp }
  { case 3 show ?case by simp }
next
  case (Cons s names)
  { case 1 show ?case using Cons(1)[of "snd (inspect_one w s pt)"] inspect_one_observed(1)[of w s pt]
      by (simp add: split_beta Let_def) }
  { case 2 show ?case using Cons(2)[of "snd (inspect_one w s pt)"] inspect_one_observed(2)[of w s pt]
      by (simp add: split_beta Let_def) }
  { case 3 show ?case using Cons(3)[of "snd (inspect_one w s pt)"] inspect_one_observed(3)[of w s pt]
      by (simp add: split_beta Let_def) }
qed

lemma serviceNames_declared: "serviceNames_of w = object_keys (declared w)"
  by (simp add: serviceNames_of_def declared_def extract_services_def Let_def object_keys_def
      own_property_order_def split: load_outcome.splits yaml_doc.splits services_value.splits)

lemma mset_own_property_order: "mset (own_property_order key xs) = mset xs"
  by (simp add: own_property_order_def)

lemma own_property_order_plain:
  assumes "\<And>x. x \<in> set xs \<Longrightarrow> \<not> is_array_index (key x)"
  shows "own_property_order key xs = xs"
proof -
  have "filter (\<lambda>x. is_array_index (key x)) xs = []" using assms by (simp add: filter_empty_conv)
  moreover have "filter (\<lambda>x. \<not> is_array_index (key x)) xs = xs" using assms by (simp add: filter_id_conv)
  ultimately show ?thesis by (simp add: own_property_order_def)
qed

subsection \<open>The port table\<close>

lemma inspect_all_table:
  "snd (inspect_all w names pt) = foldl (\<lambda>t s. assign t s (discovered w s)) pt names"
  by (induction names arbitrary: pt) (simp_all add: split_beta Let_def inspect_one_def)

lemma put_fresh: "k \<notin> fst ` set ps \<Longrightarrow> put k v ps = ps @ [(k, v)]"
  by (induction ps) auto

lemma put_keys: "fst ` set (put k v ps) = insert k (fst ` set ps)"
  by (induction ps) auto

lemma put_values: "set (put k v ps) \<subseteq> insert (k, v) (set ps)"
  by (induction ps) auto

lemma assign_keys:
  "fst ` set (own (assign pt k v)) = fst ` set (own pt) \<union> ({k} - {''__proto__''})"
  by (simp add: assign_def put_keys)

lemma table_keys:
  "fst ` set (own (foldl (\<lambda>t s. assign t s (g s)) pt names))
   = fst ` set (own pt) \<union> (set names - {''__proto__''})"
proof (induction names arbitrary: pt)
  case Nil
  then show ?case by simp
next
  case (Cons s names)
  show ?case unfolding foldl_Cons Cons.IH assign_keys by auto
qed

lemma table_own_fresh:
  assumes "distinct names" and "set names \<inter> fst ` set (own pt) = {}"
    and "''__proto__'' \<notin> set names"
  shows "own (foldl (\<lambda>t s. assign t s (g s)) pt names) = own pt @ map (\<lambda>s. (s, g s)) names"
  using assms
proof (induction names arbitrary: pt)
  case Nil
  then show ?case by simp
next
  case (Cons s names)
  have fresh: "s \<notin> fst ` set (own pt)" using Cons.prems(2) by auto
  have s: "s \<noteq> ''__proto__''" using Cons.prems(3) by auto
  have own1: "own (assign pt s (g s)) = own pt @ [(s, g s)]"
    using fresh s by (simp add: assign_def put_fresh)
  have disj: "set names \<inter> fst ` set (own (assign pt s (g s))) = {}"
    unfolding own1 using Cons.prems(1,2) by auto
  have "own (foldl (\<lambda>t s. assign t s (g s)) (assign pt s (g s)) names)
        = own (assign pt s (g s)) @ map (\<lambda>s. (s, g s)) names"
    using Cons.IH[OF _ disj] Cons.prems(1,3) by simp
  then show ?case unfolding own1 by simp
qed

lemma table_values:
  assumes "\<forall>p\<in>set (own pt). P (snd p)" and "\<And>s. P (g s)"
  shows "\<forall>p\<in>set (own (foldl (\<lambda>t s. assign t s (g s)) pt names)). P (snd p)"
  using assms(1)
proof (induction names arbitrary: pt)
  case Nil
  then show ?case by simp
next
  case (Cons s names)
  have "\<forall>q\<in>set (own (assign pt s (g s))). P (snd q)"
  proof
    fix q assume q: "q \<in> set (own (assign pt s (g s)))"
    then have "q \<in> insert (s, g s) (set (own pt))"
      using put_values[of s "g s" "own pt"] by (auto simp: assign_def split: if_splits)
    then show "P (snd q)" using Cons.prems assms(2) by auto
  qed
  then show ?case using Cons.IH[of "assign pt s (g s)"] by simp
qed

subsection \<open>The order of keys\<close>

lemma insort_key_map:
  "insort_key f (g x) (map g xs) = map g (insort_key (\<lambda>y. f (g y)) x xs)"
  by (induction xs) simp_all

lemma sort_key_map: "sort_key f (map g xs) = map g (sort_key (\<lambda>y. f (g y)) xs)"
  by (induction xs) (simp_all add: insort_key_map)

lemma own_property_order_map:
  assumes "\<And>x. key (g x) = key' x"
  shows "own_property_order key (map g xs) = map g (own_property_order key' xs)"
  by (simp add: own_property_order_def filter_map comp_def assms sort_key_map)

lemma own_property_order_idem:
  "own_property_order key (own_property_order key xs) = own_property_order key xs"
proof -
  let ?A = "sort_key (\<lambda>x. dec_value (key x)) (filter (\<lambda>x. is_array_index (key x)) xs)"
  let ?B = "filter (\<lambda>x. \<not> is_array_index (key x)) xs"
  have a: "\<And>x. x \<in> set ?A \<Longrightarrow> is_array_index (key x)" by simp
  have fa: "filter (\<lambda>x. is_array_index (key x)) ?A = ?A"
    using a by (simp add: filter_id_conv)
  have fa': "filter (\<lambda>x. \<not> is_array_index (key x)) ?A = []"
    using a by (simp add: filter_empty_conv)
  have sa: "sort_key (\<lambda>x. dec_value (key x)) ?A = ?A"
    by (rule sort_key_id_if_sorted) simp
  show ?thesis
    unfolding own_property_order_def filter_append fa fa' by (simp add: sa)
qed

lemma set_own_property_order [simp]: "set (own_property_order key xs) = set xs"
  by (auto simp: own_property_order_def)

lemma distinct_object_keys: "distinct (object_keys ks) = distinct ks"
  using mset_own_property_order[of "\<lambda>k. k" ks]
  by (metis object_keys_def mset_eq_imp_distinct_iff)

lemma entries_of_keys:
  assumes "distinct ks" and "''__proto__'' \<notin> set ks"
  shows "object_entries (foldl (\<lambda>t s. assign t s (g s)) empty_table (object_keys ks))
         = map (\<lambda>s. (s, g s)) (object_keys ks)"
proof -
  have d: "distinct (object_keys ks)" using assms(1) by (simp add: distinct_object_keys)
  have p: "''__proto__'' \<notin> set (object_keys ks)" using assms(2) by (simp add: object_keys_def)
  have "own (foldl (\<lambda>t s. assign t s (g s)) empty_table (object_keys ks))
        = map (\<lambda>s. (s, g s)) (object_keys ks)"
    using table_own_fresh[OF d _ p, of empty_table g] by (simp add: empty_table_def)
  then have "object_entries (foldl (\<lambda>t s. assign t s (g s)) empty_table (object_keys ks))
        = own_property_order fst (map (\<lambda>s. (s, g s)) (object_keys ks))"
    by (simp add: object_entries_def)
  also have "\<dots> = map (\<lambda>s. (s, g s)) (own_property_order (\<lambda>k. k) (object_keys ks))"
    by (rule own_property_order_map) simp
  also have "\<dots> = map (\<lambda>s. (s, g s)) (object_keys ks)"
    by (simp add: object_keys_def own_property_order_idem)
  finally show ?thesis .
qed

subsection \<open>The first URL\<close>

lemma first_url_scan:
  "first_url (map (\<lambda>s. (s, discovered w s)) names) = scan_first_url w names"
  by (induction names) (auto split: list.splits)

lemma first_url_source:
  assumes "first_url es \<noteq> ''''"
  shows "\<exists>s ms m. (s, ms) \<in> set es \<and> m \<in> set ms \<and> first_url es = ''http://localhost:'' @ hostPort m"
  using assms
proof (induction es rule: first_url.induct)
  case 1
  then show ?case by simp
next
  case (2 service mappings rest)
  show ?case
  proof (cases mappings)
    case Nil
    then show ?thesis using 2 by auto
  next
    case (Cons m ms)
    then have "(service, mappings) \<in> set ((service, mappings) # rest) \<and> m \<in> set mappings
      \<and> first_url ((service, mappings) # rest) = ''http://localhost:'' @ hostPort m"
      by simp
    then show ?thesis by blast
  qed
qed

subsection \<open>Digits\<close>

lemma scan_line_digits:
  assumes "m \<in> set (scan_line [] line)"
  shows "containerPort m \<noteq> [] \<and> list_all is_digit (containerPort m)
       \<and> hostPort m \<noteq> [] \<and> list_all is_digit (hostPort m)"
proof (cases "match_port_line line")
  case None
  have "scan_line [] line = []" using None by (simp add: scan_line_def)
  then show ?thesis using assms by simp
next
  case (Some p)
  obtain c h where p: "p = (c, h)" by (cases p)
  have mt: "match_port_line line = Some (c, h)" using Some p by simp
  have "scan_line [] line = [\<lparr>containerPort = c, hostPort = h\<rparr>] \<or> scan_line [] line = []"
    by (simp add: scan_line_def mt)
  then have m: "m = \<lparr>containerPort = c, hostPort = h\<rparr>"
    using assms by auto
  have "port_line_shape line c h"
    using mt by (rule match_port_line_sound)
  then show ?thesis
    unfolding port_line_shape_def m by auto
qed

lemma parse_ports_digits:
  assumes "m \<in> set (parse_ports out)"
  shows "containerPort m \<noteq> [] \<and> list_all is_digit (containerPort m)
       \<and> hostPort m \<noteq> [] \<and> list_all is_digit (hostPort m)"
  using assms scan_line_digits by (auto simp: parse_ports_def foldl_scan_line)

subsection \<open>Shape of a completed run\<close>

lemma handler_Inr:
  assumes "snd (handler w) = Inr r"
  shows "existsSync w (composePath_of w)" and "exit_code (up_run w) = Some 0"
    and "ports r = foldl (\<lambda>t s. assign t s (discovered w s)) empty_table (serviceNames_of w)"
    and "webUrl r = select_web_url (ports r)"
proof -
  show e: "existsSync w (composePath_of w)"
    using assms handler_missing[of w] by (cases "existsSync w (composePath_of w)") auto
  show c: "exit_code (up_run w) = Some 0"
    using assms handler_rejected[OF e] by (cases "exit_code (up_run w) = Some 0") auto
  have r: "r = \<lparr>webUrl = select_web_url (snd (inspect_all w (serviceNames_of w) empty_table)),
                 ports = snd (inspect_all w (serviceNames_of w) empty_table)\<rparr>"
    using assms handler_completed[OF e c] by simp
  show "ports r = foldl (\<lambda>t s. assign t s (discovered w s)) empty_table (serviceNames_of w)"
    unfolding r by (simp add: inspect_all_table)
  show "webUrl r = select_web_url (ports r)"
    unfolding r by simp
qed

lemma first_url_stops:
  assumes "\<forall>e\<in>set pre. snd e = []"
  shows "first_url (pre @ (s, m # ms) # post) = ''http://localhost:'' @ hostPort m"
  using assms by (induction pre) auto

lemma scan_first_url_none:
  assumes "\<forall>s\<in>set names. discovered w s = []"
  shows "scan_first_url w names = ''''"
  using assms by (induction names) auto

lemma object_keys_plain:
  assumes "\<forall>k\<in>set ks. \<not> is_array_index k"
  shows "object_keys ks = ks"
  unfolding object_keys_def using assms by (intro own_property_order_plain) simp

lemma remove_all_concat: "remove_all w names = concat (map (remove_one w) names)"
  by (induction names) simp_all

lemma port_table_keys:
  assumes "snd (handler w) = Inr r"
  shows "set (map fst (object_entries (ports r))) = set (serviceNames_of w) - {''__proto__''}"
  unfolding handler_Inr(3)[OF assms] object_entries_def
  by (simp add: table_keys empty_table_def)


subsection \<open>The sample runs evaluated\<close>

lemma sample_result:
  "snd (handler sample_world) = Inr \<lparr>webUrl = ''http://localhost:32768'',
     ports = \<lparr>own = [(''web'', [\<lparr>containerPort = ''80'', hostPort = ''32768''\<rparr>]), (''db'', [])],
              proto = None\<rparr>\<rparr>"
  by code_simp

lemma multi_result:
  "snd (handler multi_world) = Inr \<lparr>webUrl = ''http://localhost:32768'',
     ports = \<lparr>own = [(''web'', [\<lparr>containerPort = ''80'', hostPort = ''32768''\<rparr>,
                               \<lparr>containerPort = ''8080'', hostPort = ''9000''\<rparr>])],
              proto = None\<rparr>\<rparr>"
  by code_simp

lemma sample_declared: "declared sample_world = [''web'', ''db'']"
  by (simp add: declared_def sample_world_def)

lemma index_result:
  "snd (handler index_world) = Inr \<lparr>webUrl = ''http://localhost:32769'',
     ports = \<lparr>own = [(''1'', [\<lparr>containerPort = ''90'', hostPort = ''32769''\<rparr>]),
                     (''web'', [\<lparr>containerPort = ''80'', hostPort = ''32768''\<rparr>])],
              proto = None\<rparr>\<rparr>"
  by code_simp

lemma index_declared: "declared index_world = [''web'', ''1'']"
  by (simp add: declared_def index_world_def)

subsection \<open>The exit status of a removal\<close>




lemma compose_up_spawned:
  assumes "existsSync w (composePath_of w)"
  shows "Spawn (ComposeUp (composePath_of w) (cwd_of w)) \<in> set (fst (handler w))"
proof (cases "exit_code (up_run w) = Some 0")
  case True
  then show ?thesis using handler_completed[OF assms] by (simp add: before_up_def)
next
  case False
  then show ?thesis using handler_rejected[OF assms] by (simp add: before_up_def)
qed


subsection \<open>What a completed run stores\<close>

lemma table_digits:
  assumes "snd (handler w) = Inr r"
  shows "\<forall>e\<in>set (object_entries (ports r)). \<forall>m\<in>set (snd e).
           containerPort m \<noteq> [] \<and> list_all is_digit (containerPort m)
           \<and> hostPort m \<noteq> [] \<and> list_all is_digit (hostPort m)"
proof -
  let ?P = "\<lambda>ms. \<forall>m\<in>set ms. containerPort m \<noteq> [] \<and> list_all is_digit (containerPort m)
           \<and> hostPort m \<noteq> [] \<and> list_all is_digit (hostPort m)"
  have g: "\<And>s. ?P (discovered w s)"
    unfolding discovered_def using parse_ports_digits by blast
  have "\<forall>p\<in>set (own (foldl (\<lambda>t s. assign t s (discovered w s)) empty_table (serviceNames_of w))).
          ?P (snd p)"
    by (rule table_values) (simp_all add: empty_table_def g)
  then show ?thesis
    unfolding handler_Inr(3)[OF assms] object_entries_def by simp
qed




subsection \<open>A manifest without services\<close>

lemma declared_empty_names: "declared w = [] \<Longrightarrow> serviceNames_of w = []"
  by (simp add: serviceNames_declared object_keys_def own_property_order_def)

subsection \<open>The decimal text of an exit code\<close>

lemma dec_value_snoc: "dec_value (xs @ [c]) = 10 * dec_value xs + (of_char c - 48)"
  by (simp add: dec_value_def)

lemma digit_char_value: "d < 10 \<Longrightarrow> (of_char (digit_char d) :: int) - 48 = int d"
proof -
  assume "d < 10"
  then have "d \<in> {0, 1, 2, 3, 4, 5, 6, 7, 8, 9}" by auto
  then show ?thesis by (auto simp: digit_char_def)
qed

lemma dec_value_show_nat: "dec_value (show_nat n) = int n"
proof (induction n rule: show_nat.induct)
  case (1 n)
  show ?case
  proof (cases "n < 10")
    case True
    then show ?thesis
      by (subst show_nat.simps) (simp add: dec_value_def digit_char_value)
  next
    case False
    have "dec_value (show_nat n) = 10 * dec_value (show_nat (n div 10)) + int (n mod 10)"
      using False by (subst show_nat.simps) (simp add: dec_value_snoc digit_char_value)
    also have "\<dots> = 10 * int (n div 10) + int (n mod 10)"
      using 1 False by simp
    also have "\<dots> = int n" by (simp add: zdiv_int zmod_int)
    finally show ?thesis .
  qed
qed

lemma dec_value_show_int: "0 \<le> i \<Longrightarrow> dec_value (show_int i) = i"
  by (simp add: show_int_def dec_value_show_nat)

subsection \<open>Lines of an output\<close>

lemma split_nl_nonempty: "split_nl out \<noteq> []"
  by (induction out) (auto split: list.splits)

lemma split_nl_line:
  "CHR 0x0A \<notin> set l \<Longrightarrow> split_nl (l @ CHR 0x0A # rest) = l # split_nl rest"
  by (induction l) auto

lemma split_nl_single: "CHR 0x0A \<notin> set l \<Longrightarrow> split_nl l = [l]"
  by (induction l) auto

lemma split_nl_join:
  assumes "ls \<noteq> []" and "\<forall>l\<in>set ls. CHR 0x0A \<notin> set l"
  shows "split_nl (join [CHR 0x0A] ls) = ls"
  using assms
proof (induction "[CHR 0x0A]" ls rule: join.induct)
  case 1
  then show ?case by simp
next
  case (2 x)
  then show ?case by (simp add: split_nl_single)
next
  case (3 x y ys)
  have "split_nl (x @ CHR 0x0A # join [CHR 0x0A] (y # ys)) = x # split_nl (join [CHR 0x0A] (y # ys))"
    using 3 by (intro split_nl_line) simp
  then show ?case using 3 by simp
qed

lemma join_head: "join sep ((c # l) # ls) = c # join sep (l # ls)"
  by (cases ls) simp_all

lemma join_split_nl: "join [CHR 0x0A] (split_nl out) = out"
proof (induction out)
  case Nil
  then show ?case by simp
next
  case (Cons c cs)
  obtain l ls where s: "split_nl cs = l # ls"
    using split_nl_nonempty[of cs] by (cases "split_nl cs") auto
  show ?case
  proof (cases "c = CHR 0x0A")
    case True
    then show ?thesis using Cons s by simp
  next
    case False
    then show ?thesis using Cons s by (simp add: join_head)
  qed
qed

lemma split_nl_no_newline: "\<forall>l\<in>set (split_nl out). CHR 0x0A \<notin> set l"
proof (induction out)
  case Nil
  then show ?case by simp
next
  case (Cons c cs)
  obtain l ls where s: "split_nl cs = l # ls"
    using split_nl_nonempty[of cs] by (cases "split_nl cs") auto
  show ?case using Cons s by auto
qed

lemma parse_ports_lines:
  assumes "ls \<noteq> []" and "\<forall>l\<in>set ls. CHR 0x0A \<notin> set l"
  shows "parse_ports (join [CHR 0x0A] ls) = concat (map (scan_line []) ls)"
  by (simp add: parse_ports_def foldl_scan_line split_nl_join[OF assms])

subsection \<open>What the table holds for a service\<close>

lemma put_map_of: "map_of (put k v ps) = (map_of ps)(k \<mapsto> v)"
  by (induction ps) (auto simp: fun_eq_iff)

lemma put_distinct: "distinct (map fst ps) \<Longrightarrow> distinct (map fst (put k v ps))"
proof (induction ps)
  case Nil
  then show ?case by simp
next
  case (Cons p ps)
  have "fst ` set (put k v ps) = insert k (fst ` set ps)" by (rule put_keys)
  then show ?case using Cons by auto
qed

lemma table_lookup:
  "map_of (own (foldl (\<lambda>t s. assign t s (g s)) pt names)) s
   = (if s \<in> set names \<and> s \<noteq> ''__proto__'' then Some (g s) else map_of (own pt) s)"
proof (induction names arbitrary: pt)
  case Nil
  then show ?case by simp
next
  case (Cons a names)
  have a: "map_of (own (assign pt a (g a))) s
    = (if a = ''__proto__'' then map_of (own pt) s else ((map_of (own pt))(a \<mapsto> g a)) s)"
    by (simp add: assign_def put_map_of)
  show ?case unfolding foldl_Cons Cons.IH a by auto
qed

lemma table_distinct:
  "distinct (map fst (own pt)) \<Longrightarrow>
   distinct (map fst (own (foldl (\<lambda>t s. assign t s (g s)) pt names)))"
proof (induction names arbitrary: pt)
  case Nil
  then show ?case by simp
next
  case (Cons a names)
  have "distinct (map fst (own (assign pt a (g a))))"
    using Cons.prems by (simp add: assign_def put_distinct)
  then show ?case using Cons.IH by simp
qed

lemma table_entry:
  assumes "snd (handler w) = Inr r" and "s \<in> set (serviceNames_of w)" and "s \<noteq> ''__proto__''"
  shows "(s, ms) \<in> set (object_entries (ports r)) \<longleftrightarrow> ms = discovered w s"
proof -
  let ?t = "foldl (\<lambda>t s. assign t s (discovered w s)) empty_table (serviceNames_of w)"
  have p: "ports r = ?t" using handler_Inr(3)[OF assms(1)] .
  have d: "distinct (map fst (own ?t))"
    by (rule table_distinct) (simp add: empty_table_def)
  have l: "map_of (own ?t) s = Some (discovered w s)"
    using assms(2,3) by (simp add: table_lookup)
  have "(s, ms) \<in> set (own ?t) \<longleftrightarrow> map_of (own ?t) s = Some ms"
    using d by simp
  then show ?thesis unfolding p object_entries_def using l by auto
qed

section \<open>The claims\<close>

text \<open>
  C3. For every line of the port-query output, the close handler appends exactly one mapping,
  made of the two captured digit groups, if and only if the line matches
  \<^verbatim>\<open>^(\d+)\/tcp -> [^:]+:(\d+)$\<close>; every other line (blank, UDP, malformed) leaves
  the mappings as they are and raises nothing. The lines are those of the output: they
  contain no line feed, and joined by line feeds they give the output back, so an output
  written as lines joined by line feeds is split into exactly these lines. The output is the
  text of the stdout chunks in order of arrival, the mappings parsed from it are the
  contributions of its lines in the order of the lines, and in a completed run this sequence
  is what the port table holds for the service.
\<close>

theorem port_line_grammar:
  "(port_line_shape line c h \<longrightarrow> scan_line ms line = ms @ [\<lparr>containerPort = c, hostPort = h\<rparr>])
   \<and> (scan_line ms line = ms @ [\<lparr>containerPort = c, hostPort = h\<rparr>] \<longrightarrow> port_line_shape line c h)
   \<and> ((\<nexists>c h. port_line_shape line c h) \<longrightarrow> scan_line ms line = ms)
   \<and> parse_ports out = concat (map (scan_line []) (split_nl out))
   \<and> split_nl out \<noteq> [] \<and> join [CHR 0x0A] (split_nl out) = out
   \<and> (\<forall>l\<in>set (split_nl out). CHR 0x0A \<notin> set l)
   \<and> (ls \<noteq> [] \<and> (\<forall>l\<in>set ls. CHR 0x0A \<notin> set l)
        \<longrightarrow> split_nl (join [CHR 0x0A] ls) = ls
            \<and> parse_ports (join [CHR 0x0A] ls) = concat (map (scan_line []) ls))
   \<and> (ls \<noteq> [] \<and> (\<forall>l\<in>set ls. CHR 0x0A \<notin> set l)
        \<and> concat (map snd (filter (\<lambda>d. fst d = Stdout) (chunks (port_run w s)))) = join [CHR 0x0A] ls
        \<longrightarrow> discovered w s = concat (map (scan_line []) ls))
   \<and> (snd (handler w) = Inr r \<and> s \<in> set (serviceNames_of w) \<and> s \<noteq> ''__proto__''
        \<longrightarrow> ((s, sq) \<in> set (object_entries (ports r)) \<longleftrightarrow> sq = discovered w s))"
proof -
  have a: "port_line_shape line c h \<longrightarrow> scan_line ms line = ms @ [\<lparr>containerPort = c, hostPort = h\<rparr>]"
  proof
    assume s: "port_line_shape line c h"
    show "scan_line ms line = ms @ [\<lparr>containerPort = c, hostPort = h\<rparr>]"
      using match_port_line_complete[OF s] shape_trim[OF s] by (simp add: scan_line_def)
  qed
  have b: "scan_line ms line = ms @ [\<lparr>containerPort = c, hostPort = h\<rparr>] \<longrightarrow> port_line_shape line c h"
  proof
    assume "scan_line ms line = ms @ [\<lparr>containerPort = c, hostPort = h\<rparr>]"
    then have "match_port_line line = Some (c, h)"
      by (auto simp: scan_line_def split: if_splits option.splits)
    then show "port_line_shape line c h" by (rule match_port_line_sound)
  qed
  have n: "(\<nexists>c h. port_line_shape line c h) \<longrightarrow> scan_line ms line = ms"
  proof
    assume n: "\<nexists>c h. port_line_shape line c h"
    have "match_port_line line = None"
    proof (cases "match_port_line line")
      case None then show ?thesis .
    next
      case (Some p)
      then show ?thesis using n match_port_line_sound[of line "fst p" "snd p"] by auto
    qed
    then show "scan_line ms line = ms" by (simp add: scan_line_def)
  qed
  have d: "parse_ports out = concat (map (scan_line []) (split_nl out))"
    by (simp add: parse_ports_def foldl_scan_line)
  have e: "split_nl out \<noteq> []" by (rule split_nl_nonempty)
  have f: "join [CHR 0x0A] (split_nl out) = out" by (rule join_split_nl)
  have g: "\<forall>l\<in>set (split_nl out). CHR 0x0A \<notin> set l" by (rule split_nl_no_newline)
  have i: "ls \<noteq> [] \<and> (\<forall>l\<in>set ls. CHR 0x0A \<notin> set l)
        \<longrightarrow> split_nl (join [CHR 0x0A] ls) = ls
            \<and> parse_ports (join [CHR 0x0A] ls) = concat (map (scan_line []) ls)"
    using split_nl_join[of ls] parse_ports_lines[of ls] by blast
  have j: "ls \<noteq> [] \<and> (\<forall>l\<in>set ls. CHR 0x0A \<notin> set l)
        \<and> concat (map snd (filter (\<lambda>d. fst d = Stdout) (chunks (port_run w s)))) = join [CHR 0x0A] ls
        \<longrightarrow> discovered w s = concat (map (scan_line []) ls)"
    using parse_ports_lines[of ls] by (simp add: discovered_def port_output_def)
  have k: "snd (handler w) = Inr r \<and> s \<in> set (serviceNames_of w) \<and> s \<noteq> ''__proto__''
        \<longrightarrow> ((s, sq) \<in> set (object_entries (ports r)) \<longleftrightarrow> sq = discovered w s)"
    using table_entry[of w r s sq] by blast
  show ?thesis using a b n d e f g i j k by (intro conjI)
qed

theorem port_line_grammar_witness:
  "scan_line [] ''80/tcp -> 0.0.0.0:32768'' = [\<lparr>containerPort = ''80'', hostPort = ''32768''\<rparr>]
   \<and> scan_line [] ''443/udp -> 0.0.0.0:1'' = []
   \<and> split_nl (''80/tcp -> 0.0.0.0:32768'' @ [CHR 0x0A] @ ''443/udp -> 0.0.0.0:1'' @ [CHR 0x0A]
                @ ''8080/tcp -> 127.0.0.1:9000'' @ [CHR 0x0A])
       = [''80/tcp -> 0.0.0.0:32768'', ''443/udp -> 0.0.0.0:1'', ''8080/tcp -> 127.0.0.1:9000'', '''']
   \<and> parse_ports (''80/tcp -> 0.0.0.0:32768'' @ [CHR 0x0A] @ ''443/udp -> 0.0.0.0:1'' @ [CHR 0x0A]
                   @ ''8080/tcp -> 127.0.0.1:9000'' @ [CHR 0x0A])
       = [\<lparr>containerPort = ''80'', hostPort = ''32768''\<rparr>,
          \<lparr>containerPort = ''8080'', hostPort = ''9000''\<rparr>]
   \<and> discovered multi_world ''web''
       = [\<lparr>containerPort = ''80'', hostPort = ''32768''\<rparr>,
          \<lparr>containerPort = ''8080'', hostPort = ''9000''\<rparr>]
   \<and> (''web'', [\<lparr>containerPort = ''80'', hostPort = ''32768''\<rparr>,
                \<lparr>containerPort = ''8080'', hostPort = ''9000''\<rparr>])
       \<in> set (object_entries (ports \<lparr>webUrl = ''http://localhost:32768'',
            ports = \<lparr>own = [(''web'', [\<lparr>containerPort = ''80'', hostPort = ''32768''\<rparr>,
                                      \<lparr>containerPort = ''8080'', hostPort = ''9000''\<rparr>])],
                     proto = None\<rparr>\<rparr>))"
proof -
  let ?l1 = "''80/tcp -> 0.0.0.0:32768''"
  let ?l2 = "''443/udp -> 0.0.0.0:1''"
  let ?l3 = "''8080/tcp -> 127.0.0.1:9000''"
  let ?ls = "[?l1, ?l2, ?l3, '''']"
  let ?R = "\<lparr>webUrl = ''http://localhost:32768'',
            ports = \<lparr>own = [(''web'', [\<lparr>containerPort = ''80'', hostPort = ''32768''\<rparr>,
                                      \<lparr>containerPort = ''8080'', hostPort = ''9000''\<rparr>])],
                     proto = None\<rparr>\<rparr>"
  have out: "join [CHR 0x0A] ?ls = ?l1 @ [CHR 0x0A] @ ?l2 @ [CHR 0x0A] @ ?l3 @ [CHR 0x0A]"
    by simp
  have ne: "?ls \<noteq> []" by simp
  have nl: "\<forall>l\<in>set ?ls. CHR 0x0A \<notin> set l" by simp
  have s1: "port_line_shape ?l1 ''80'' ''32768''"
    unfolding port_line_shape_def
    by (rule exI[of _ "''0.0.0.0''"]) (simp add: is_digit_def)
  have s3: "port_line_shape ?l3 ''8080'' ''9000''"
    unfolding port_line_shape_def
    by (rule exI[of _ "''127.0.0.1''"]) (simp add: is_digit_def)
  have s2: "\<nexists>c h. port_line_shape ?l2 c h"
    using match_port_line_complete[of ?l2] 
    by (auto simp: match_port_line_def is_digit_def Let_def)
  have s4: "\<nexists>c h. port_line_shape '''' c h"
    by (simp add: port_line_shape_def)
  note t = port_line_grammar[where ms = "[]" and ls = ?ls and w = multi_world and s = "''web''"
      and r = ?R]
  have c1: "scan_line [] ?l1 = [\<lparr>containerPort = ''80'', hostPort = ''32768''\<rparr>]"
    using t[where line = ?l1 and c = "''80''" and h = "''32768''", THEN conjunct1] s1 by simp
  have c3: "scan_line [] ?l3 = [\<lparr>containerPort = ''8080'', hostPort = ''9000''\<rparr>]"
    using t[where line = ?l3 and c = "''8080''" and h = "''9000''", THEN conjunct1] s3 by simp
  have c2: "scan_line [] ?l2 = []"
    using t[where line = ?l2, THEN conjunct2, THEN conjunct2, THEN conjunct1] s2 by blast
  have c4: "scan_line [] '''' = []"
    using t[where line = "''''", THEN conjunct2, THEN conjunct2, THEN conjunct1] s4 by blast
  have lines: "split_nl (join [CHR 0x0A] ?ls) = ?ls
      \<and> parse_ports (join [CHR 0x0A] ?ls) = concat (map (scan_line []) ?ls)"
    using t[THEN conjunct2, THEN conjunct2, THEN conjunct2, THEN conjunct2, THEN conjunct2,
        THEN conjunct2, THEN conjunct2, THEN conjunct1] ne nl by blast
  have ch: "concat (map snd (filter (\<lambda>d. fst d = Stdout) (chunks (port_run multi_world ''web''))))
      = join [CHR 0x0A] ?ls"
    by (simp add: multi_world_def)
  have disc: "discovered multi_world ''web'' = concat (map (scan_line []) ?ls)"
    using t[THEN conjunct2, THEN conjunct2, THEN conjunct2, THEN conjunct2, THEN conjunct2,
        THEN conjunct2, THEN conjunct2, THEN conjunct2, THEN conjunct1] ne nl ch by blast
  have names: "''web'' \<in> set (serviceNames_of multi_world)"
    by code_simp
  have ent: "(''web'', discovered multi_world ''web'') \<in> set (object_entries (ports ?R))"
    using t[where sq = "discovered multi_world ''web''", THEN conjunct2, THEN conjunct2,
        THEN conjunct2, THEN conjunct2, THEN conjunct2, THEN conjunct2, THEN conjunct2,
        THEN conjunct2, THEN conjunct2] multi_result names by simp
  have v: "concat (map (scan_line []) ?ls)
      = [\<lparr>containerPort = ''80'', hostPort = ''32768''\<rparr>,
         \<lparr>containerPort = ''8080'', hostPort = ''9000''\<rparr>]"
    using c1 c2 c3 c4 by simp
  note l1 = lines[unfolded out v, THEN conjunct1] and l2 = lines[unfolded out v, THEN conjunct2]
    and d = disc[unfolded v] and e = ent[unfolded disc v]
  show ?thesis
    by (intro conjI c1 c2 l1 l2 d e)
qed

text \<open>
  C4. If the resolved manifest path does not refer to an existing file, the handler throws
  an explicit error and stops before any further effect: after the line that logs the path
  there is no manifest load, no spawn of any command, and no output.
\<close>

theorem missing_manifest_aborts:
  assumes "\<not> existsSync w (composePath_of w)"
  shows "snd (handler w) = Inl (JsError (''Compose file not found: '' @ composePath_of w))
    \<and> fst (handler w) = [Log Info (Text (''Compose file: '' @ composePath_of w))]
    \<and> (\<forall>p. LoadManifest p \<notin> set (fst (handler w)))
    \<and> (\<forall>c. Spawn c \<notin> set (fst (handler w)))
    \<and> (\<forall>n v. Output n v \<notin> set (fst (handler w)))"
  using assms by (simp add: handler_missing)

theorem missing_manifest_aborts_witness:
  "\<not> existsSync absent_world (composePath_of absent_world)
   \<and> snd (handler absent_world) = Inl (JsError ''Compose file not found: /srv/app/docker-compose.yml'')
   \<and> fst (handler absent_world) = [Log Info (Text ''Compose file: /srv/app/docker-compose.yml'')]"
proof -
  have h: "\<not> existsSync absent_world (composePath_of absent_world)"
    by (simp add: absent_world_def)
  have p: "composePath_of absent_world = ''/srv/app/docker-compose.yml''"
    by (simp add: absent_world_def composePath_of_def cwd_of_def)
  show ?thesis using h missing_manifest_aborts[OF h] unfolding p by simp
qed

text \<open>
  C1. If \<^verbatim>\<open>docker compose up -d --build\<close> closes with a non-zero exit code, the handler
  rejects with an error whose message carries that code (its decimal text, which reads back
  as the code), the run ends with the error line, no port query is spawned, and nothing is
  output: no port table and no result exist.
\<close>

theorem build_failure_aborts:
  assumes "existsSync w (composePath_of w)"
    and "exit_code (up_run w) = Some code" and "code \<noteq> 0"
  shows "snd (handler w) = Inl (JsError (''docker compose up exited with code '' @ show_int code))
    \<and> last (fst (handler w)) = Log Error (Text (''docker compose up exited with code '' @ show_int code))
    \<and> (0 \<le> code \<longrightarrow> dec_value (show_int code) = code)
    \<and> queries (fst (handler w)) = []
    \<and> outputs (fst (handler w)) = []"
  using assms handler_rejected[of w] by (simp add: dec_value_show_int)

theorem build_failure_aborts_witness:
  "existsSync failing_world (composePath_of failing_world)
   \<and> exit_code (up_run failing_world) = Some 17 \<and> (17::int) \<noteq> 0
   \<and> snd (handler failing_world) = Inl (JsError ''docker compose up exited with code 17'')
   \<and> queries (fst (handler failing_world)) = []
   \<and> outputs (fst (handler failing_world)) = []"
proof -
  have a: "existsSync failing_world (composePath_of failing_world)"
    by (simp add: failing_world_def)
  have b: "exit_code (up_run failing_world) = Some 17"
    by (simp add: failing_world_def)
  have c: "(17::int) \<noteq> 0" by simp
  have s: "show_int 17 = ''17''"
    by (simp add: show_int_def show_nat.simps digit_char_def)
  show ?thesis using a b build_failure_aborts[OF a b c] unfolding s by simp
qed

text \<open>
  C2, as amended. For every completed run whose manifest declares no service named
  \<^verbatim>\<open>__proto__\<close>, \<^verbatim>\<open>webUrl\<close> is \<^verbatim>\<open>http://localhost:\<close> followed by the host port
  of the first mapping of the first service with a non-empty mapping sequence, the services
  being taken in the order in which \<^verbatim>\<open>Object.keys\<close> lists them (names that are array
  indices first, in ascending numeric order, then the other names in declaration order);
  this is the declaration order when no service name is an array index. The scan stops at
  that first hit, and \<^verbatim>\<open>webUrl\<close> is empty when no service has a mapping.
\<close>

theorem web_url_first_in_key_order:
  assumes "snd (handler w) = Inr r" and "distinct (declared w)"
    and "''__proto__'' \<notin> set (declared w)"
  shows "webUrl r = scan_first_url w (object_keys (declared w))
    \<and> ((\<forall>k\<in>set (declared w). \<not> is_array_index k) \<longrightarrow> webUrl r = scan_first_url w (declared w))
    \<and> ((\<forall>s\<in>set (declared w). discovered w s = []) \<longrightarrow> webUrl r = '''')
    \<and> (\<forall>pre s m ms post.
          object_entries (ports r) = pre @ (s, m # ms) # post \<and> (\<forall>e\<in>set pre. snd e = [])
          \<longrightarrow> webUrl r = ''http://localhost:'' @ hostPort m)"
proof -
  have entries: "object_entries (ports r) = map (\<lambda>s. (s, discovered w s)) (object_keys (declared w))"
    unfolding handler_Inr(3)[OF assms(1)] serviceNames_declared
    by (rule entries_of_keys[OF assms(2,3)])
  have url: "webUrl r = first_url (object_entries (ports r))"
    using handler_Inr(4)[OF assms(1)] by (simp add: select_web_url_def)
  have main: "webUrl r = scan_first_url w (object_keys (declared w))"
    unfolding url entries by (rule first_url_scan)
  have plain: "(\<forall>k\<in>set (declared w). \<not> is_array_index k) \<longrightarrow> webUrl r = scan_first_url w (declared w)"
    using main object_keys_plain[of "declared w"] by auto
  have none: "(\<forall>s\<in>set (declared w). discovered w s = []) \<longrightarrow> webUrl r = ''''"
    using main scan_first_url_none[of "object_keys (declared w)" w]
    by (simp add: object_keys_def)
  have stops: "\<forall>pre s m ms post.
          object_entries (ports r) = pre @ (s, m # ms) # post \<and> (\<forall>e\<in>set pre. snd e = [])
          \<longrightarrow> webUrl r = ''http://localhost:'' @ hostPort m"
    unfolding url using first_url_stops by metis
  show ?thesis using main plain none stops by blast
qed

theorem web_url_first_in_key_order_witness:
  "snd (handler sample_world) = Inr \<lparr>webUrl = ''http://localhost:32768'',
     ports = \<lparr>own = [(''web'', [\<lparr>containerPort = ''80'', hostPort = ''32768''\<rparr>]), (''db'', [])],
              proto = None\<rparr>\<rparr>
   \<and> distinct (declared sample_world) \<and> ''__proto__'' \<notin> set (declared sample_world)
   \<and> scan_first_url sample_world (object_keys (declared sample_world)) = ''http://localhost:32768''
   \<and> scan_first_url sample_world (declared sample_world) = ''http://localhost:32768''
   \<and> distinct (declared index_world) \<and> ''__proto__'' \<notin> set (declared index_world)
   \<and> scan_first_url index_world (object_keys (declared index_world)) = ''http://localhost:32769''"
proof -
  have d: "distinct (declared sample_world)" by (simp add: sample_declared)
  have p: "''__proto__'' \<notin> set (declared sample_world)" by (simp add: sample_declared)
  have i: "\<forall>k\<in>set (declared sample_world). \<not> is_array_index k"
    by (simp add: sample_declared is_array_index_def is_digit_def)
  note t = web_url_first_in_key_order[OF sample_result d p]
  from t[THEN conjunct1]
  have m: "scan_first_url sample_world (object_keys (declared sample_world))
      = ''http://localhost:32768''"
    by simp
  from t[THEN conjunct2, THEN conjunct1, THEN mp, OF i]
  have n: "scan_first_url sample_world (declared sample_world) = ''http://localhost:32768''"
    by simp
  have d': "distinct (declared index_world)" by (simp add: index_declared)
  have p': "''__proto__'' \<notin> set (declared index_world)" by (simp add: index_declared)
  from web_url_first_in_key_order[OF index_result d' p', THEN conjunct1]
  have m': "scan_first_url index_world (object_keys (declared index_world))
      = ''http://localhost:32769''"
    by simp
  show ?thesis using sample_result d p m n d' p' m' by simp
qed

text \<open>
  C2, as stated, fails: the manifest declares \<^verbatim>\<open>web\<close> before \<^verbatim>\<open>1\<close> and both
  publish a port; the first declared service with a mapping is \<^verbatim>\<open>web\<close> (host port
  32768), and the handler selects the port of \<^verbatim>\<open>1\<close>.
\<close>

theorem web_url_declaration_order_counterexample:
  "declared index_world = [''web'', ''1'']
   \<and> scan_first_url index_world (declared index_world) = ''http://localhost:32768''
   \<and> snd (handler index_world) = Inr \<lparr>webUrl = ''http://localhost:32769'',
        ports = \<lparr>own = [(''1'', [\<lparr>containerPort = ''90'', hostPort = ''32769''\<rparr>]),
                        (''web'', [\<lparr>containerPort = ''80'', hostPort = ''32768''\<rparr>])],
                 proto = None\<rparr>\<rparr>"
proof -
  have b: "scan_first_url index_world [''web'', ''1''] = ''http://localhost:32768''"
    by code_simp
  show ?thesis using index_declared b index_result by simp
qed



text \<open>
  C8. In the first version of the handler every chunk on the error channel of the build is
  logged at warning severity, also one without \<^verbatim>\<open>Creating\<close>, \<^verbatim>\<open>Created\<close> or
  \<^verbatim>\<open>level=warning\<close>, which only gets the prefix \<^verbatim>\<open>DOCKER ERR:\<close>; the second version
  logs such a chunk at error severity. Chunks of stdout are logged at informational severity.
\<close>

theorem up_stderr_severity:
  "severity (up_data (Stderr, str)) = Some Warn
   \<and> severity (up_data2 (Stderr, str)) = (if routine str then Some Warn else Some Error)
   \<and> severity (up_data (Stdout, str)) = Some Info
   \<and> up_data (Stderr, ''Error response from daemon: port is already allocated'')
       = Log Warn (Text ''DOCKER ERR: Error response from daemon: port is already allocated'')
   \<and> up_data2 (Stderr, ''Error response from daemon: port is already allocated'')
       = Log Error (Text ''DOCKER ERR: Error response from daemon: port is already allocated'')"
proof -
  have r: "\<not> routine ''Error response from daemon: port is already allocated''"
    by code_simp
  show ?thesis using r by simp
qed

text \<open>
  C6, as amended. For every manifest that declares N services, the handler spawns exactly N
  removals, one for each declared service, in the order in which \<^verbatim>\<open>Object.keys\<close> lists
  the services (names that are array indices first, in ascending numeric order, then the
  other names in declaration order), which is the declaration order when no service name is
  an array index; this does not depend on what the removals find. The removals run one after
  the other: the effects of each, from its spawn to the line logged at its close, come
  before the spawn of the next.
\<close>

theorem removals_in_key_order:
  assumes "existsSync w (composePath_of w)"
  shows "removals (fst (handler w)) = object_keys (declared w)
    \<and> mset (removals (fst (handler w))) = mset (declared w)
    \<and> length (removals (fst (handler w))) = length (declared w)
    \<and> ((\<forall>k\<in>set (declared w). \<not> is_array_index k) \<longrightarrow> removals (fst (handler w)) = declared w)
    \<and> (\<exists>pre post.
          fst (handler w) =
            pre
            @ concat (map (\<lambda>s. Spawn (RemoveContainers s) # map rm_data (chunks (rm_run w s))
                                @ [Log Info (Text (''Removed any existing containers matching: '' @ s))])
                          (object_keys (declared w)))
            @ post
          \<and> removals pre = [] \<and> removals post = [])"
proof -
  let ?blocks = "concat (map (\<lambda>s. Spawn (RemoveContainers s) # map rm_data (chunks (rm_run w s))
                                @ [Log Info (Text (''Removed any existing containers matching: '' @ s))])
                          (object_keys (declared w)))"
  let ?pre = "Log Info (Text (''Compose file: '' @ composePath_of w))
     # fst (extract_services w (composePath_of w))"
  let ?mid = "[Log Info (Text ''Starting Docker Compose...''),
        Spawn (ComposeUp (composePath_of w) (cwd_of w))]
     @ map up_data (chunks (up_run w))"
  have blocks: "remove_all w (serviceNames_of w) = ?blocks"
    unfolding remove_all_concat serviceNames_declared
    by (simp add: remove_one_def[abs_def])
  have bu: "before_up w = ?pre @ ?blocks @ ?mid"
    unfolding before_up_def blocks by simp
  have pre: "removals ?pre = []" by simp
  have mid: "removals ?mid = []" by simp
  obtain post where h: "fst (handler w) = before_up w @ post" and post: "removals post = []"
  proof (cases "exit_code (up_run w) = Some 0")
    case True
    show ?thesis
      by (rule that[of "[Log Info (Text ''Docker Compose executed successfully.'')]
       @ fst (inspect_all w (serviceNames_of w) empty_table)
       @ [Log Info (ExposedPorts (snd (inspect_all w (serviceNames_of w) empty_table))),
          Output ''ports'' (PortsValue (snd (inspect_all w (serviceNames_of w) empty_table))),
          Log Info (Text (''Web URL detected: ''
             @ select_web_url (snd (inspect_all w (serviceNames_of w) empty_table)))),
          Output ''webUrl''
            (StringValue (select_web_url (snd (inspect_all w (serviceNames_of w) empty_table))))]"])
        (simp_all add: handler_completed[OF assms True])
  next
    case False
    show ?thesis
      by (rule that[of "[Log Error (Text (''docker compose up exited with code ''
              @ show_code (exit_code (up_run w))))]"])
        (simp_all add: handler_rejected[OF assms False])
  qed
  have r: "removals (fst (handler w)) = object_keys (declared w)"
    unfolding h by (simp add: post serviceNames_declared)
  have m: "mset (removals (fst (handler w))) = mset (declared w)"
    unfolding r object_keys_def by (rule mset_own_property_order)
  have l: "length (removals (fst (handler w))) = length (declared w)"
    using m by (metis size_mset)
  have pl: "(\<forall>k\<in>set (declared w). \<not> is_array_index k) \<longrightarrow> removals (fst (handler w)) = declared w"
    unfolding r using object_keys_plain[of "declared w"] by blast
  have "fst (handler w) = ?pre @ ?blocks @ (?mid @ post)"
    unfolding h bu by simp
  moreover have "removals (?mid @ post) = []"
    using mid post by simp
  ultimately have ex: "\<exists>pre post. fst (handler w) = pre @ ?blocks @ post
      \<and> removals pre = [] \<and> removals post = []"
    using pre by blast
  show ?thesis using r m l pl ex by blast
qed

theorem removals_in_key_order_witness:
  "existsSync sample_world (composePath_of sample_world)
   \<and> declared sample_world = [''web'', ''db'']
   \<and> removals (fst (handler sample_world)) = [''web'', ''db'']
   \<and> length (removals (fst (handler sample_world))) = 2
   \<and> existsSync index_world (composePath_of index_world)
   \<and> removals (fst (handler index_world)) = object_keys [''web'', ''1'']"
proof -
  have e: "existsSync sample_world (composePath_of sample_world)"
    by (simp add: sample_world_def)
  have i: "\<forall>k\<in>set (declared sample_world). \<not> is_array_index k"
    by (simp add: sample_declared is_array_index_def is_digit_def)
  note t = removals_in_key_order[OF e]
  from t[THEN conjunct2, THEN conjunct2, THEN conjunct2, THEN conjunct1, THEN mp, OF i]
  have r: "removals (fst (handler sample_world)) = [''web'', ''db'']"
    by (simp add: sample_declared)
  from t[THEN conjunct2, THEN conjunct2, THEN conjunct1]
  have l: "length (removals (fst (handler sample_world))) = 2"
    by (simp add: sample_declared)
  have e': "existsSync index_world (composePath_of index_world)"
    by (simp add: index_world_def)
  from removals_in_key_order[OF e', THEN conjunct1]
  have r': "removals (fst (handler index_world)) = object_keys [''web'', ''1'']"
    by (simp add: index_declared)
  show ?thesis using e r l e' r' by (simp add: sample_declared)
qed

text \<open>
  C6, as stated, fails: the manifest declares \<^verbatim>\<open>web\<close> before \<^verbatim>\<open>1\<close>, and the
  containers of \<^verbatim>\<open>1\<close> are removed first.
\<close>

theorem removal_declaration_order_counterexample:
  "declared index_world = [''web'', ''1'']
   \<and> removals (fst (handler index_world)) = [''1'', ''web'']"
proof -
  have b: "removals (fst (handler index_world)) = [''1'', ''web'']"
    by code_simp
  show ?thesis using index_declared b by simp
qed

text \<open>
  C10. For every completed run, every mapping in the port table has a container port and a
  host port that are non-empty and consist of decimal digits only; a non-empty
  \<^verbatim>\<open>webUrl\<close> is \<^verbatim>\<open>http://localhost:\<close> followed by the host port of a mapping that is
  in the table; and the two outputs, \<^verbatim>\<open>ports\<close> and \<^verbatim>\<open>webUrl\<close>, carry the table and the
  URL that the handler returns.
\<close>

theorem result_well_formed:
  assumes "snd (handler w) = Inr r"
  shows "(\<forall>e\<in>set (object_entries (ports r)). \<forall>m\<in>set (snd e).
            containerPort m \<noteq> [] \<and> list_all is_digit (containerPort m)
            \<and> hostPort m \<noteq> [] \<and> list_all is_digit (hostPort m))
    \<and> (webUrl r \<noteq> '''' \<longrightarrow>
         (\<exists>s ms m. (s, ms) \<in> set (object_entries (ports r)) \<and> m \<in> set ms
            \<and> webUrl r = ''http://localhost:'' @ hostPort m))
    \<and> outputs (fst (handler w))
        = [(''ports'', PortsValue (ports r)), (''webUrl'', StringValue (webUrl r))]"
proof (intro conjI impI)
  show "\<forall>e\<in>set (object_entries (ports r)). \<forall>m\<in>set (snd e).
            containerPort m \<noteq> [] \<and> list_all is_digit (containerPort m)
            \<and> hostPort m \<noteq> [] \<and> list_all is_digit (hostPort m)"
    using assms by (rule table_digits)
next
  assume "webUrl r \<noteq> ''''"
  then have "first_url (object_entries (ports r)) \<noteq> ''''"
    using handler_Inr(4)[OF assms] by (simp add: select_web_url_def)
  from first_url_source[OF this]
  show "\<exists>s ms m. (s, ms) \<in> set (object_entries (ports r)) \<and> m \<in> set ms
            \<and> webUrl r = ''http://localhost:'' @ hostPort m"
    using handler_Inr(4)[OF assms] by (simp add: select_web_url_def)
next
  have e: "existsSync w (composePath_of w)" and c: "exit_code (up_run w) = Some 0"
    using handler_Inr(1,2)[OF assms] by simp_all
  have r: "r = \<lparr>webUrl = select_web_url (snd (inspect_all w (serviceNames_of w) empty_table)),
                 ports = snd (inspect_all w (serviceNames_of w) empty_table)\<rparr>"
    using assms handler_completed[OF e c] by simp
  show "outputs (fst (handler w))
        = [(''ports'', PortsValue (ports r)), (''webUrl'', StringValue (webUrl r))]"
    unfolding r by (simp add: handler_completed[OF e c])
qed

theorem result_well_formed_witness:
  "snd (handler sample_world) = Inr \<lparr>webUrl = ''http://localhost:32768'',
     ports = \<lparr>own = [(''web'', [\<lparr>containerPort = ''80'', hostPort = ''32768''\<rparr>]), (''db'', [])],
              proto = None\<rparr>\<rparr>
   \<and> outputs (fst (handler sample_world))
       = [(''ports'', PortsValue \<lparr>own = [(''web'', [\<lparr>containerPort = ''80'', hostPort = ''32768''\<rparr>]),
                                         (''db'', [])], proto = None\<rparr>),
          (''webUrl'', StringValue ''http://localhost:32768'')]"
  using result_well_formed[OF sample_result] sample_result by simp

text \<open>
  C9 fails on a manifest that declares a service named \<^verbatim>\<open>__proto__\<close>: the service is
  extracted and queried like the others, but the assignment that should store its mappings
  replaces the prototype of \<^verbatim>\<open>ports\<close>, and the table gets no entry for it.
\<close>

theorem proto_service_has_no_entry:
  "serviceNames_of proto_world = [''web'', ''__proto__'']
   \<and> snd (handler proto_world) = Inr \<lparr>webUrl = ''http://localhost:32768'',
        ports = \<lparr>own = [(''web'', [\<lparr>containerPort = ''80'', hostPort = ''32768''\<rparr>])],
                 proto = Some [\<lparr>containerPort = ''90'', hostPort = ''32769''\<rparr>]\<rparr>\<rparr>
   \<and> map fst (object_entries \<lparr>own = [(''web'', [\<lparr>containerPort = ''80'', hostPort = ''32768''\<rparr>])],
                 proto = Some [\<lparr>containerPort = ''90'', hostPort = ''32769''\<rparr>]\<rparr>) = [''web'']"
proof -
  have a: "serviceNames_of proto_world = [''web'', ''__proto__'']"
    by code_simp
  have b: "snd (handler proto_world) = Inr \<lparr>webUrl = ''http://localhost:32768'',
        ports = \<lparr>own = [(''web'', [\<lparr>containerPort = ''80'', hostPort = ''32768''\<rparr>])],
                 proto = Some [\<lparr>containerPort = ''90'', hostPort = ''32769''\<rparr>]\<rparr>\<rparr>"
    by code_simp
  have c: "map fst (object_entries \<lparr>own = [(''web'', [\<lparr>containerPort = ''80'', hostPort = ''32768''\<rparr>])],
                 proto = Some [\<lparr>containerPort = ''90'', hostPort = ''32769''\<rparr>]\<rparr>) = [''web'']"
    by code_simp
  show ?thesis using a b c by simp
qed

text \<open>
  C5, as amended. If the manifest exists and no service name is extracted, because loading
  or parsing throws, or the document is null or undefined, or it has no truthy
  \<^verbatim>\<open>services\<close>, or \<^verbatim>\<open>services\<close> has no key, then Step 1 raises nothing and logs
  nothing at error severity: what was thrown (also the TypeError of reading a nullish
  document) is logged as one warning, and a document that loads logs no warning. The service
  set is empty, no removal and no port query is spawned, the build still runs, and when it
  closes with code 0 the port table is empty and \<^verbatim>\<open>webUrl\<close> is the empty string.
\<close>

theorem no_services_degrades:
  assumes "existsSync w (composePath_of w)" and "declared w = []"
  shows "serviceNames_of w = []
    \<and> removals (fst (handler w)) = [] \<and> queries (fst (handler w)) = []
    \<and> Spawn (ComposeUp (composePath_of w) (cwd_of w)) \<in> set (fst (handler w))
    \<and> logged_at Error (fst (extract_services w (composePath_of w))) = []
    \<and> (\<forall>err. load_yaml w (composePath_of w) = Threw err \<longrightarrow>
          logged_at Warn (fst (extract_services w (composePath_of w)))
            = [Log Warn (Text (''Failed to parse compose file: '' @ err))])
    \<and> (load_yaml w (composePath_of w) = Loaded Undefined \<longrightarrow>
          logged_at Warn (fst (extract_services w (composePath_of w)))
            = [Log Warn (Text (''Failed to parse compose file: '' @ nullish_read ''undefined''))])
    \<and> (load_yaml w (composePath_of w) = Loaded Null \<longrightarrow>
          logged_at Warn (fst (extract_services w (composePath_of w)))
            = [Log Warn (Text (''Failed to parse compose file: '' @ nullish_read ''null''))])
    \<and> (\<forall>sv. load_yaml w (composePath_of w) = Loaded (Document sv) \<longrightarrow>
          logged_at Warn (fst (extract_services w (composePath_of w))) = [])
    \<and> (exit_code (up_run w) = Some 0 \<longrightarrow>
          snd (handler w) = Inr \<lparr>webUrl = '''', ports = empty_table\<rparr>)"
proof -
  have n: "serviceNames_of w = []" using assms(2) by (rule declared_empty_names)
  have rq: "removals (fst (handler w)) = [] \<and> queries (fst (handler w)) = []"
  proof (cases "exit_code (up_run w) = Some 0")
    case True
    then show ?thesis using handler_completed[OF assms(1)] n by simp
  next
    case False
    then show ?thesis using handler_rejected[OF assms(1)] n by simp
  qed
  have up: "Spawn (ComposeUp (composePath_of w) (cwd_of w)) \<in> set (fst (handler w))"
    using assms(1) by (rule compose_up_spawned)
  have er: "logged_at Error (fst (extract_services w (composePath_of w))) = []"
    by (simp add: extract_services_def logged_at_def Let_def
        split: load_outcome.splits yaml_doc.splits services_value.splits)
  have th: "\<forall>err. load_yaml w (composePath_of w) = Threw err \<longrightarrow>
          logged_at Warn (fst (extract_services w (composePath_of w)))
            = [Log Warn (Text (''Failed to parse compose file: '' @ err))]"
    by (simp add: extract_services_def logged_at_def)
  have un: "load_yaml w (composePath_of w) = Loaded Undefined \<longrightarrow>
          logged_at Warn (fst (extract_services w (composePath_of w)))
            = [Log Warn (Text (''Failed to parse compose file: '' @ nullish_read ''undefined''))]"
    by (simp add: extract_services_def logged_at_def)
  have nu: "load_yaml w (composePath_of w) = Loaded Null \<longrightarrow>
          logged_at Warn (fst (extract_services w (composePath_of w)))
            = [Log Warn (Text (''Failed to parse compose file: '' @ nullish_read ''null''))]"
    by (simp add: extract_services_def logged_at_def)
  have dc: "\<forall>sv. load_yaml w (composePath_of w) = Loaded (Document sv) \<longrightarrow>
          logged_at Warn (fst (extract_services w (composePath_of w))) = []"
    by (simp add: extract_services_def logged_at_def Let_def split: services_value.splits)
  have ok: "exit_code (up_run w) = Some 0 \<longrightarrow>
          snd (handler w) = Inr \<lparr>webUrl = '''', ports = empty_table\<rparr>"
  proof
    assume c: "exit_code (up_run w) = Some 0"
    show "snd (handler w) = Inr \<lparr>webUrl = '''', ports = empty_table\<rparr>"
      using handler_completed[OF assms(1) c] n
      by (simp add: select_web_url_def object_entries_def own_property_order_def empty_table_def)
  qed
  show ?thesis using n rq up er th un nu dc ok by blast
qed

theorem no_services_degrades_witness:
  "existsSync malformed_world (composePath_of malformed_world)
   \<and> declared malformed_world = []
   \<and> load_yaml malformed_world (composePath_of malformed_world)
       = Threw ''YAMLException: bad indentation of a mapping entry''
   \<and> logged_at Warn (fst (extract_services malformed_world (composePath_of malformed_world)))
       = [Log Warn (Text (''Failed to parse compose file: YAMLException: bad indentation of a mapping entry''))]
   \<and> removals (fst (handler malformed_world)) = []
   \<and> queries (fst (handler malformed_world)) = []
   \<and> exit_code (up_run malformed_world) = Some 0
   \<and> snd (handler malformed_world) = Inr \<lparr>webUrl = '''', ports = empty_table\<rparr>"
proof -
  have e: "existsSync malformed_world (composePath_of malformed_world)"
    by (simp add: malformed_world_def)
  have d: "declared malformed_world = []"
    by (simp add: declared_def malformed_world_def)
  have l: "load_yaml malformed_world (composePath_of malformed_world)
       = Threw ''YAMLException: bad indentation of a mapping entry''"
    by (simp add: malformed_world_def)
  have c: "exit_code (up_run malformed_world) = Some 0"
    by (simp add: malformed_world_def)
  note t = no_services_degrades[OF e d]
  from t have rq: "removals (fst (handler malformed_world)) = []"
    "queries (fst (handler malformed_world)) = []" by blast+
  from t l have wn: "logged_at Warn (fst (extract_services malformed_world (composePath_of malformed_world)))
       = [Log Warn (Text (''Failed to parse compose file: '' @ ''YAMLException: bad indentation of a mapping entry''))]"
    by blast
  from t c have ok: "snd (handler malformed_world) = Inr \<lparr>webUrl = '''', ports = empty_table\<rparr>"
    by blast
  show ?thesis using e d l c rq wn ok by simp
qed

text \<open>
  C5, as stated, fails: a manifest that parses to a mapping without \<^verbatim>\<open>services\<close> yields
  no service, and the run logs no warning at all.
\<close>

theorem no_services_warning_counterexample:
  "existsSync bare_world (composePath_of bare_world)
   \<and> load_yaml bare_world (composePath_of bare_world) = Loaded (Document Falsy)
   \<and> serviceNames_of bare_world = []
   \<and> logged_at Warn (fst (handler bare_world)) = []
   \<and> fst (handler bare_world) =
       [Log Info (Text ''Compose file: /tmp/ws/docker-compose.yml''),
        LoadManifest ''/tmp/ws/docker-compose.yml'',
        Log Info (Text ''Starting Docker Compose...''),
        Spawn (ComposeUp ''/tmp/ws/docker-compose.yml'' ''/tmp/ws''),
        Log Info (Text ''Docker Compose executed successfully.''),
        Log Info (ExposedPorts \<lparr>own = [], proto = None\<rparr>),
        Output ''ports'' (PortsValue \<lparr>own = [], proto = None\<rparr>),
        Log Info (Text ''Web URL detected: ''),
        Output ''webUrl'' (StringValue '''')]"
proof -
  have a: "existsSync bare_world (composePath_of bare_world)"
    by (simp add: bare_world_def)
  have b: "load_yaml bare_world (composePath_of bare_world) = Loaded (Document Falsy)"
    by (simp add: bare_world_def)
  have c: "serviceNames_of bare_world = []" by code_simp
  have d: "fst (handler bare_world) =
       [Log Info (Text ''Compose file: /tmp/ws/docker-compose.yml''),
        LoadManifest ''/tmp/ws/docker-compose.yml'',
        Log Info (Text ''Starting Docker Compose...''),
        Spawn (ComposeUp ''/tmp/ws/docker-compose.yml'' ''/tmp/ws''),
        Log Info (Text ''Docker Compose executed successfully.''),
        Log Info (ExposedPorts \<lparr>own = [], proto = None\<rparr>),
        Output ''ports'' (PortsValue \<lparr>own = [], proto = None\<rparr>),
        Log Info (Text ''Web URL detected: ''),
        Output ''webUrl'' (StringValue '''')]"
    by code_simp
  have e: "logged_at Warn (fst (handler bare_world)) = []"
    unfolding d by (simp add: logged_at_def)
  show ?thesis using a b c d e by simp
qed

end
